theory Spec2Isabelle
  imports Complex_Main "HOL-Library.AList"
begin

section \<open>Data model\<close>

text \<open>
  The plugin \<^verbatim>\<open>plugins.v2/hitandrun/__init__.py\<close> keeps one obligation record per
  torrent hash. Its entity classes (\<^verbatim>\<open>HNRStatus\<close>, \<^verbatim>\<open>TaskType\<close>,
  \<^verbatim>\<open>TorrentHistory\<close>, \<^verbatim>\<open>TorrentTask\<close>), its configuration classes and the
  client helper are imported from sibling modules; the records below hold the fields
  that \<^verbatim>\<open>__init__.py\<close> reads and writes. Python floats (timestamps in seconds,
  hours, ratios) are modelled as reals. A field that the source tests with
  \<^verbatim>\<open>is not None\<close> or for truthiness is an \<open>option\<close>; a field that the source
  compares without a guard is a plain number.
\<close>

datatype HNRStatus = PENDING | UNRESTRICTED | IN_PROGRESS | COMPLIANT | OVERDUE | NEEDS_SEEDING

datatype TaskType = NORMAL | RSS_SUBSCRIBE | BRUSH

datatype py_error = TypeError | AttributeError | KeyError | ValidationError

text \<open>
  Modelled from the spec: \<^verbatim>\<open>NotifyMode\<close> is declared in the configuration module. The
  notification mode is a three-way switch; the source names \<^verbatim>\<open>ALWAYS\<close> and
  \<^verbatim>\<open>ON_ERROR\<close>, the third value is the silent one.
\<close>

datatype NotifyMode = SILENT | ON_ERROR | ALWAYS

record TorrentHistory =
  site :: int
  site_name :: string
  title :: string
  description :: string
  torrent_size :: real
  time :: real
  hash :: string
  task_type :: TaskType
  hit_and_run :: bool

record TorrentTask = TorrentHistory +
  hr_status :: HNRStatus
  hr_ratio :: real
  hr_duration :: "real option"
  hr_deadline_days :: real
  ratio :: "real option"
  downloaded :: real
  uploaded :: real
  seeding_time :: "real option"
  deleted :: bool
  deleted_time :: "real option"
  hr_met_time :: "real option"

text \<open>
  The effective per-site settings, as \<^verbatim>\<open>get_site_config\<close> returns them, and the
  engine configuration. The body of \<^verbatim>\<open>HNRConfig.get_site_config\<close> lives in a sibling
  module, so the resolver is a field of the configuration.
\<close>

record SiteConfig =
  sc_hr_duration :: "real option"
  sc_hr_ratio :: real
  sc_hr_deadline_days :: real
  sc_additional_seed_time :: "real option"
  sc_hr_active :: bool

record HNRConfig =
  enabled :: bool
  onlyonce :: bool
  downloader :: "string option"
  cfg_hr_duration :: real
  cfg_hr_deadline_days :: real
  cfg_hr_ratio :: real
  sites :: "int list"
  hit_and_run_tag :: string
  auto_cleanup_days :: real
  notify :: NotifyMode
  get_site_config :: "string \<Rightarrow> SiteConfig"

text \<open>
  The download client as the helper shows it: the tags of every torrent it holds, by
  hash. A hash the client does not hold maps to \<open>None\<close>.
\<close>

type_synonym client = "string \<Rightarrow> string list option"

type_synonym task_store = "string \<Rightarrow> TorrentTask option"

text \<open>Python's \<^verbatim>\<open>x or 0\<close> on an optional number, and the truthiness of one.\<close>

definition or_zero :: "real option \<Rightarrow> real" where
  "or_zero x = (case x of None \<Rightarrow> 0 | Some a \<Rightarrow> a)"

definition truthy :: "real option \<Rightarrow> bool" where
  "truthy x = (case x of None \<Rightarrow> False | Some a \<Rightarrow> a \<noteq> 0)"

text \<open>
  Modelled from the spec: the \<^verbatim>\<open>deadline_time\<close> property of \<^verbatim>\<open>TorrentTask\<close> is
  declared in the entities module; the deadline is the creation time plus the
  deadline-day count times 86400 seconds.
\<close>

definition deadline_time :: "TorrentTask \<Rightarrow> real" where
  "deadline_time torrent_task = time torrent_task + hr_deadline_days torrent_task * 86400"

section \<open>Management tag on the client\<close>

text \<open>
  \<^verbatim>\<open>__update_hit_and_run_tag\<close>: nothing happens for a task without a hash, without an
  obligation, or whose torrent the client does not hold; otherwise the tag is added
  when absent (\<open>add\<close>) or removed when present.
\<close>

definition update_hit_and_run_tag :: "HNRConfig \<Rightarrow> client \<Rightarrow> TorrentTask \<Rightarrow> bool \<Rightarrow> client" where
  "update_hit_and_run_tag cfg cl torrent_task add =
     (if hash torrent_task = [] then cl
      else if \<not> hit_and_run torrent_task then cl
      else (case cl (hash torrent_task) of
              None \<Rightarrow> cl
            | Some tags \<Rightarrow>
                (let hnr_tag = hit_and_run_tag cfg in
                 if add then
                   (if hnr_tag \<notin> set tags then cl(hash torrent_task \<mapsto> tags @ [hnr_tag]) else cl)
                 else
                   (if hnr_tag \<in> set tags then cl(hash torrent_task \<mapsto> removeAll hnr_tag tags)
                    else cl))))"

definition set_hit_and_run_tag :: "HNRConfig \<Rightarrow> client \<Rightarrow> TorrentTask \<Rightarrow> client" where
  "set_hit_and_run_tag cfg cl torrent_task = update_hit_and_run_tag cfg cl torrent_task True"

definition remove_hit_and_run_tag :: "HNRConfig \<Rightarrow> client \<Rightarrow> TorrentTask \<Rightarrow> client" where
  "remove_hit_and_run_tag cfg cl torrent_task = update_hit_and_run_tag cfg cl torrent_task False"

section \<open>Status evaluation\<close>

text \<open>
  \<^verbatim>\<open>__meets_hr_requirements\<close>: both tests are computed, then joined by \<^verbatim>\<open>or\<close>.
\<close>

definition meets_hr_requirements :: "TorrentTask \<Rightarrow> real \<Rightarrow> real \<Rightarrow> bool" where
  "meets_hr_requirements torrent_task additional_seed_time required_ratio =
     (let seeding_time_ok =
            (case seeding_time torrent_task of
               None \<Rightarrow> False
             | Some st \<Rightarrow>
                 (case hr_duration torrent_task of
                    None \<Rightarrow> False
                  | Some d \<Rightarrow> st > (d + additional_seed_time) * 3600));
          ratio_ok =
            (case ratio torrent_task of
               None \<Rightarrow> False
             | Some r \<Rightarrow> r > required_ratio)
      in seeding_time_ok \<or> ratio_ok)"

text \<open>
  \<^verbatim>\<open>__update_hr_status\<close>, one task at the clock reading \<open>now\<close>. The function writes
  the task and, on compliance, removes the tag on the client. The notification and the
  log line come after these writes, and \<^verbatim>\<open>check\<close> catches what they raise, so the
  result is the task as written.
\<close>

definition update_hr_status :: "HNRConfig \<Rightarrow> real \<Rightarrow> client \<Rightarrow> TorrentTask \<Rightarrow> TorrentTask \<times> client" where
  "update_hr_status cfg now cl torrent_task =
     (if \<not> hit_and_run torrent_task then (torrent_task, cl)
      else if hr_status torrent_task \<noteq> IN_PROGRESS then (torrent_task, cl)
      else
        (let site_config = get_site_config cfg (site_name torrent_task);
             additional_seed_time = or_zero (sc_additional_seed_time site_config);
             meets_requirements =
               meets_hr_requirements torrent_task additional_seed_time (hr_ratio torrent_task)
         in if meets_requirements then
              (let t1 = torrent_task\<lparr>hr_status := COMPLIANT\<rparr>;
                   t2 = t1\<lparr>hr_met_time := Some now\<rparr>
               in (t2, remove_hit_and_run_tag cfg cl t2))
            else if now > deadline_time torrent_task then
              (torrent_task\<lparr>hr_status := OVERDUE\<rparr>, cl)
            else if deleted torrent_task then
              (torrent_task\<lparr>hr_status := NEEDS_SEEDING\<rparr>, cl)
            else (torrent_task, cl)))"

section \<open>Task creation\<close>

text \<open>
  A torrent as the client helper describes it: its hash, its tags, the entries of
  \<^verbatim>\<open>get_torrent_info\<close> that the plugin reads (an absent entry is \<open>None\<close>), and the
  site that \<^verbatim>\<open>get_site_by_torrent\<close> resolves (an empty name when there is none).
\<close>

record Torrent =
  t_hash :: string
  t_tags :: "string list"
  t_title :: string
  t_total_size :: real
  t_add_on :: "real option"
  t_downloaded :: "real option"
  t_uploaded :: "real option"
  t_ratio :: "real option"
  t_seeding_time :: "real option"
  t_site_id :: int
  t_site_name :: string

type_synonym histories = "string \<Rightarrow> TorrentHistory option"

text \<open>
  Modelled from the spec: \<^verbatim>\<open>TorrentTask.parse_obj\<close> and the field defaults of
  \<^verbatim>\<open>TorrentTask\<close> are declared in the entities module. A task built from a history
  record copies the record's fields; the obligation fields start in their initial state
  (status PENDING, not deleted, no timestamps, no live statistics yet).
\<close>

definition task_of_history :: "TorrentHistory \<Rightarrow> TorrentTask" where
  "task_of_history h =
     \<lparr>site = site h, site_name = site_name h, title = title h, description = description h,
      torrent_size = torrent_size h, time = time h, hash = hash h, task_type = task_type h,
      hit_and_run = hit_and_run h,
      hr_status = PENDING, hr_ratio = 0, hr_duration = None, hr_deadline_days = 0,
      ratio = Some 0, downloaded = 0, uploaded = 0, seeding_time = Some 0,
      deleted = False, deleted_time = None, hr_met_time = None\<rparr>"

text \<open>\<^verbatim>\<open>__init_hr_status\<close>.\<close>

definition init_hr_status :: "HNRConfig \<Rightarrow> TorrentTask \<Rightarrow> TorrentTask" where
  "init_hr_status cfg torrent_task =
     (let site_config = get_site_config cfg (site_name torrent_task);
          t1 = (if sc_hr_active site_config then torrent_task\<lparr>hit_and_run := True\<rparr>
                else torrent_task)
      in if hit_and_run t1 then
           t1\<lparr>hr_ratio := sc_hr_ratio site_config,
              hr_duration := sc_hr_duration site_config,
              hr_deadline_days := sc_hr_deadline_days site_config,
              hr_status := IN_PROGRESS\<rparr>
         else t1\<lparr>hr_status := UNRESTRICTED\<rparr>)"

text \<open>
  \<^verbatim>\<open>__convert_torrent_info_to_task\<close>: \<open>None\<close> for a torrent without a hash, and for
  one that has no history record and no site.
\<close>

definition convert_torrent_info_to_task ::
  "HNRConfig \<Rightarrow> real \<Rightarrow> Torrent \<Rightarrow> histories \<Rightarrow> TorrentTask option" where
  "convert_torrent_info_to_task cfg now torrent hist =
     (let torrent_hash = t_hash torrent in
      if torrent_hash = [] then None
      else
        (case (case hist torrent_hash of
                 Some torrent_history \<Rightarrow> Some (task_of_history torrent_history)
               | None \<Rightarrow>
                   (if t_site_name torrent = [] then None
                    else Some
                      ((task_of_history
                         \<lparr>site = t_site_id torrent, site_name = t_site_name torrent,
                          title = t_title torrent, description = [],
                          torrent_size = t_total_size torrent,
                          time = (case t_add_on torrent of None \<Rightarrow> now | Some a \<Rightarrow> a),
                          hash = t_hash torrent, task_type = NORMAL, hit_and_run = True\<rparr>)
                       \<lparr>deleted := False\<rparr>)))
         of None \<Rightarrow> None
          | Some torrent_task \<Rightarrow> Some (init_hr_status cfg (torrent_task\<lparr>hit_and_run := True\<rparr>))))"

section \<open>Tag reconciliation\<close>

text \<open>
  \<^verbatim>\<open>__update_seeding_tasks_based_on_tags\<close>. The snapshot is the dictionary
  \<^verbatim>\<open>seeding_torrents_dict\<close> as the list of its items, in iteration order; its keys are
  distinct. The loop carries the task store and the three summaries (added, reset,
  removed); \<open>tags_step\<close> is its body for one item. When the conversion of a tagged,
  untracked torrent yields \<open>None\<close>, the source stores it and then reads
  \<^verbatim>\<open>torrent_task.site_name\<close> for the log line: that raises \<^verbatim>\<open>AttributeError\<close>,
  which nothing on the way up catches.
\<close>

type_synonym tag_diff = "task_store \<times> TorrentTask list \<times> TorrentTask list \<times> TorrentTask list"

definition tags_step ::
  "HNRConfig \<Rightarrow> real \<Rightarrow> histories \<Rightarrow> string \<times> Torrent \<Rightarrow> tag_diff \<Rightarrow> py_error + tag_diff" where
  "tags_step cfg now hist item acc =
     (case item of (torrent_hash, torrent) \<Rightarrow>
      case acc of (torrent_tasks, added, reset, removed) \<Rightarrow>
      if hit_and_run_tag cfg \<in> set (t_tags torrent) then
        (case torrent_tasks torrent_hash of
           None \<Rightarrow>
             (case convert_torrent_info_to_task cfg now torrent hist of
                None \<Rightarrow> Inl AttributeError
              | Some torrent_task \<Rightarrow>
                  Inr (torrent_tasks(torrent_hash \<mapsto> torrent_task), added @ [torrent_task],
                       reset, removed))
         | Some torrent_task \<Rightarrow>
             (if deleted torrent_task then
                Inr (torrent_tasks(torrent_hash \<mapsto> torrent_task\<lparr>deleted := False\<rparr>), added,
                     reset @ [torrent_task\<lparr>deleted := False\<rparr>], removed)
              else Inr (torrent_tasks, added, reset, removed)))
      else
        (case torrent_tasks torrent_hash of
           None \<Rightarrow> Inr (torrent_tasks, added, reset, removed)
         | Some torrent_task \<Rightarrow>
             (if hr_status torrent_task = COMPLIANT then
                Inr (torrent_tasks, added, reset, removed)
              else
                Inr (torrent_tasks(torrent_hash := None), added, reset,
                     removed @ [torrent_task]))))"

fun tags_loop ::
  "HNRConfig \<Rightarrow> real \<Rightarrow> histories \<Rightarrow> (string \<times> Torrent) list \<Rightarrow> tag_diff \<Rightarrow> py_error + tag_diff" where
  "tags_loop cfg now hist [] acc = Inr acc"
| "tags_loop cfg now hist (item # rest) acc =
     (case tags_step cfg now hist item acc of
        Inl e \<Rightarrow> Inl e
      | Inr acc' \<Rightarrow> tags_loop cfg now hist rest acc')"

text \<open>
  \<open>is_qb\<close> is the answer of \<^verbatim>\<open>downloader_helper.is_downloader("qbittorrent", ...)\<close>.
\<close>

definition update_seeding_tasks_based_on_tags ::
  "HNRConfig \<Rightarrow> bool \<Rightarrow> real \<Rightarrow> histories \<Rightarrow> (string \<times> Torrent) list \<Rightarrow> task_store
     \<Rightarrow> py_error + tag_diff" where
  "update_seeding_tasks_based_on_tags cfg is_qb now hist seeding_torrents_dict torrent_tasks =
     (if \<not> is_qb then Inr (torrent_tasks, [], [], [])
      else tags_loop cfg now hist seeding_torrents_dict (torrent_tasks, [], [], []))"

text \<open>
  An item of the snapshot is settled in a store when the loop body has nothing to do
  for it: a tagged torrent is tracked and not marked deleted; an untagged torrent is
  untracked, or tracked as COMPLIANT.
\<close>

definition settled_at :: "HNRConfig \<Rightarrow> string \<times> Torrent \<Rightarrow> task_store \<Rightarrow> bool" where
  "settled_at cfg item s =
     (if hit_and_run_tag cfg \<in> set (t_tags (snd item))
      then (case s (fst item) of None \<Rightarrow> False | Some t \<Rightarrow> \<not> deleted t)
      else (case s (fst item) of None \<Rightarrow> True | Some t \<Rightarrow> hr_status t = COMPLIANT))"

section \<open>Log line and notification\<close>

text \<open>
  \<^verbatim>\<open>__log_torrent_hr_status\<close> adds \<^verbatim>\<open>torrent_task.hr_duration\<close> and the additional seed
  time without a guard: for a task without a duration the sum raises \<^verbatim>\<open>TypeError\<close>.
\<close>

definition log_torrent_hr_status :: "HNRConfig \<Rightarrow> TorrentTask \<Rightarrow> py_error + unit" where
  "log_torrent_hr_status cfg torrent_task =
     (let site_config = get_site_config cfg (site_name torrent_task);
          additional_seed_time = or_zero (sc_additional_seed_time site_config)
      in case hr_duration torrent_task of
           None \<Rightarrow> Inl TypeError
         | Some d \<Rightarrow> Inr ())"

text \<open>
  \<^verbatim>\<open>__build_hr_message_text\<close>: for a status other than IN_PROGRESS and PENDING the
  text needs \<^verbatim>\<open>seeding_time / 3600\<close> and the sum of the duration and the additional
  seed time, both unguarded. \<^verbatim>\<open>__send_hr_message\<close> builds the text only when the
  notification mode asks for a message.
\<close>

definition build_hr_message_text :: "HNRConfig \<Rightarrow> TorrentTask \<Rightarrow> py_error + unit" where
  "build_hr_message_text cfg torrent_task =
     (if hr_status torrent_task \<noteq> IN_PROGRESS \<and> hr_status torrent_task \<noteq> PENDING then
        (case seeding_time torrent_task of
           None \<Rightarrow> Inl TypeError
         | Some st \<Rightarrow>
             (case hr_duration torrent_task of
                None \<Rightarrow> Inl TypeError
              | Some d \<Rightarrow> Inr ()))
      else Inr ())"

definition send_hr_message :: "HNRConfig \<Rightarrow> TorrentTask \<Rightarrow> bool \<Rightarrow> py_error + unit" where
  "send_hr_message cfg torrent_task warn =
     (if notify cfg = ALWAYS \<or> (warn \<and> notify cfg = ON_ERROR)
      then build_hr_message_text cfg torrent_task
      else Inr ())"

section \<open>The check cycle\<close>

text \<open>
  \<^verbatim>\<open>check\<close> builds \<^verbatim>\<open>seeding_torrents_dict\<close> with a dictionary comprehension over
  the client's torrents: a hash seen again keeps its place and takes the later torrent.
\<close>

definition torrents_dict :: "Torrent list \<Rightarrow> (string \<times> Torrent) list" where
  "torrents_dict seeding_torrents =
     foldl (\<lambda>d torrent. AList.update (t_hash torrent) torrent d) [] seeding_torrents"

text \<open>
  \<^verbatim>\<open>check_torrents\<close>: the snapshot's torrent for every checked hash that the snapshot
  holds.
\<close>

definition check_torrents :: "(string \<times> Torrent) list \<Rightarrow> string list \<Rightarrow> Torrent list" where
  "check_torrents seeding_torrents_dict torrent_check_hashes =
     List.map_filter (map_of seeding_torrents_dict) torrent_check_hashes"

text \<open>
  \<^verbatim>\<open>__update_undeleted_torrents_missing_in_downloader\<close>. \<open>undeleted_of\<close> is the list
  comprehension that reads \<^verbatim>\<open>torrent_tasks[hash_value].deleted\<close> for every missing
  hash; \<open>mark_deleted_loop\<close> is the loop over the hashes it yields. The loop marks a
  task, then writes the log line and sends the notification: an exception of either
  ends the loop and leaves the function.
\<close>

fun undeleted_of :: "task_store \<Rightarrow> string list \<Rightarrow> py_error + string list" where
  "undeleted_of torrent_tasks [] = Inr []"
| "undeleted_of torrent_tasks (hash_value # rest) =
     (case torrent_tasks hash_value of
        None \<Rightarrow> Inl KeyError
      | Some torrent_task \<Rightarrow>
          (case undeleted_of torrent_tasks rest of
             Inl e \<Rightarrow> Inl e
           | Inr hs \<Rightarrow> Inr (if \<not> deleted torrent_task then hash_value # hs else hs)))"

fun mark_deleted_loop ::
  "HNRConfig \<Rightarrow> real \<Rightarrow> string list \<Rightarrow> task_store \<Rightarrow> py_error + task_store" where
  "mark_deleted_loop cfg now [] torrent_tasks = Inr torrent_tasks"
| "mark_deleted_loop cfg now (hash_value # rest) torrent_tasks =
     (case torrent_tasks hash_value of
        None \<Rightarrow> Inl KeyError
      | Some t \<Rightarrow>
          (let torrent_task = t\<lparr>deleted := True, deleted_time := Some now\<rparr> in
           case log_torrent_hr_status cfg torrent_task of
             Inl e \<Rightarrow> Inl e
           | Inr u \<Rightarrow>
               (let warning = (hr_status torrent_task \<noteq> COMPLIANT \<and>
                               hr_status torrent_task \<noteq> UNRESTRICTED)
                in case send_hr_message cfg torrent_task warning of
                     Inl e \<Rightarrow> Inl e
                   | Inr u \<Rightarrow>
                       mark_deleted_loop cfg now rest
                         (torrent_tasks(hash_value \<mapsto> torrent_task)))))"

definition update_undeleted_torrents_missing_in_downloader ::
  "HNRConfig \<Rightarrow> real \<Rightarrow> task_store \<Rightarrow> string list \<Rightarrow> Torrent list \<Rightarrow> py_error + task_store" where
  "update_undeleted_torrents_missing_in_downloader cfg now torrent_tasks torrent_check_hashes
     torrents =
     (let torrent_all_hashes = map t_hash torrents;
          missing_hashes = filter (\<lambda>hash_value. hash_value \<notin> set torrent_all_hashes)
                             torrent_check_hashes
      in case undeleted_of torrent_tasks missing_hashes of
           Inl e \<Rightarrow> Inl e
         | Inr undeleted_hashes \<Rightarrow>
             if undeleted_hashes = [] then Inr torrent_tasks
             else mark_deleted_loop cfg now undeleted_hashes torrent_tasks)"

text \<open>\<^verbatim>\<open>__update_torrent_tasks_state\<close>: the live statistics of every checked torrent.\<close>

fun update_torrent_tasks_state :: "Torrent list \<Rightarrow> task_store \<Rightarrow> task_store" where
  "update_torrent_tasks_state [] torrent_tasks = torrent_tasks"
| "update_torrent_tasks_state (torrent # rest) torrent_tasks =
     (case torrent_tasks (t_hash torrent) of
        None \<Rightarrow> update_torrent_tasks_state rest torrent_tasks
      | Some torrent_task \<Rightarrow>
          update_torrent_tasks_state rest
            (torrent_tasks(t_hash torrent \<mapsto>
               torrent_task\<lparr>downloaded := or_zero (t_downloaded torrent),
                             uploaded := or_zero (t_uploaded torrent),
                             ratio := Some (or_zero (t_ratio torrent)),
                             seeding_time := Some (or_zero (t_seeding_time torrent))\<rparr>)))"

text \<open>
  \<^verbatim>\<open>__auto_cleanup\<close>. \<open>cleanup_due\<close> is the chain of the four scenarios tested for
  one task; a timestamp is tested for truthiness, so one that is absent or zero counts
  as missing. \<open>cleanup_loop\<close> is the loop over the items of the store, \<open>task_ids\<close>
  being its keys in iteration order: in each scenario the log line is written before
  the key is added to \<^verbatim>\<open>tasks_to_remove\<close>, so an exception of the log line leaves the
  function before anything is deleted. \<open>remove_tasks\<close> is the deletion loop.
\<close>

definition cleanup_due :: "HNRConfig \<Rightarrow> real \<Rightarrow> TorrentTask \<Rightarrow> bool" where
  "cleanup_due cfg current_time torrent_task =
     (let cleanup_threshold_seconds = auto_cleanup_days cfg * 86400 in
      if hr_status torrent_task = COMPLIANT \<and> truthy (hr_met_time torrent_task) \<and>
         current_time - or_zero (hr_met_time torrent_task) > cleanup_threshold_seconds
      then True
      else if hr_status torrent_task = COMPLIANT \<and> \<not> truthy (hr_met_time torrent_task)
      then True
      else if deleted torrent_task \<and> truthy (deleted_time torrent_task) \<and>
         current_time - or_zero (deleted_time torrent_task) > cleanup_threshold_seconds
      then True
      else if deleted torrent_task \<and> \<not> truthy (deleted_time torrent_task)
      then True
      else False)"

fun cleanup_loop ::
  "HNRConfig \<Rightarrow> real \<Rightarrow> task_store \<Rightarrow> string list \<Rightarrow> string list \<Rightarrow> py_error + string list" where
  "cleanup_loop cfg current_time torrent_tasks [] tasks_to_remove = Inr tasks_to_remove"
| "cleanup_loop cfg current_time torrent_tasks (task_id # rest) tasks_to_remove =
     (case torrent_tasks task_id of
        None \<Rightarrow> cleanup_loop cfg current_time torrent_tasks rest tasks_to_remove
      | Some torrent_task \<Rightarrow>
          if cleanup_due cfg current_time torrent_task then
            (case log_torrent_hr_status cfg torrent_task of
               Inl e \<Rightarrow> Inl e
             | Inr u \<Rightarrow>
                 cleanup_loop cfg current_time torrent_tasks rest (tasks_to_remove @ [task_id]))
          else cleanup_loop cfg current_time torrent_tasks rest tasks_to_remove)"

fun remove_tasks :: "string list \<Rightarrow> task_store \<Rightarrow> task_store" where
  "remove_tasks [] torrent_tasks = torrent_tasks"
| "remove_tasks (task_id # rest) torrent_tasks =
     remove_tasks rest
       (if torrent_tasks task_id \<noteq> None then torrent_tasks(task_id := None) else torrent_tasks)"

definition auto_cleanup ::
  "HNRConfig \<Rightarrow> real \<Rightarrow> string list \<Rightarrow> task_store \<Rightarrow> py_error + task_store" where
  "auto_cleanup cfg current_time task_ids torrent_tasks =
     (if auto_cleanup_days cfg \<le> 0 then Inr torrent_tasks
      else
        (case cleanup_loop cfg current_time torrent_tasks task_ids [] of
           Inl e \<Rightarrow> Inl e
         | Inr tasks_to_remove \<Rightarrow> Inr (remove_tasks tasks_to_remove torrent_tasks)))"

text \<open>
  \<^verbatim>\<open>check\<close>. \<open>has_downloader\<close> says whether the downloader instance is there, and
  \<open>task_ids\<close> lists the keys of the store that the cycle loads, in the dictionary's
  order. After the reconciliation the dictionary holds the keys that were kept, in
  their old order, and then the added ones in the order of the snapshot:
  \<open>keys_after_tags\<close>. The result is the store that the cycle saves at its end;
  \<open>Inl\<close> is an exception that ends the cycle before that. The clock is read once for
  the whole cycle. The status loop reads the client through the snapshot and catches
  the exceptions of each task; its writes to the client and the statistics are outside
  the store and left out.
\<close>

definition keys_after_tags ::
  "string list \<Rightarrow> (string \<times> Torrent) list \<Rightarrow> task_store \<Rightarrow> string list" where
  "keys_after_tags task_ids seeding_torrents_dict tasks1 =
     filter (\<lambda>k. tasks1 k \<noteq> None)
       (task_ids @ filter (\<lambda>k. k \<notin> set task_ids) (map fst seeding_torrents_dict))"

definition client_of :: "(string \<times> Torrent) list \<Rightarrow> client" where
  "client_of seeding_torrents_dict = (\<lambda>h. map_option t_tags (map_of seeding_torrents_dict h))"

definition evaluate_tasks ::
  "HNRConfig \<Rightarrow> real \<Rightarrow> (string \<times> Torrent) list \<Rightarrow> string list \<Rightarrow> task_store
     \<Rightarrow> py_error + task_store" where
  "evaluate_tasks cfg now seeding_torrents_dict torrent_check_hashes tasks1 =
     (let torrents = check_torrents seeding_torrents_dict torrent_check_hashes in
      case update_undeleted_torrents_missing_in_downloader cfg now tasks1 torrent_check_hashes
             torrents of
        Inl e \<Rightarrow> Inl e
      | Inr tasks2 \<Rightarrow>
          (let tasks3 = update_torrent_tasks_state torrents tasks2
           in Inr (\<lambda>h. map_option
                         (\<lambda>torrent_task.
                            fst (update_hr_status cfg now (client_of seeding_torrents_dict)
                                   torrent_task))
                         (tasks3 h))))"

definition check ::
  "HNRConfig \<Rightarrow> bool \<Rightarrow> bool \<Rightarrow> real \<Rightarrow> Torrent list \<Rightarrow> histories \<Rightarrow> string list \<Rightarrow> task_store
     \<Rightarrow> py_error + task_store" where
  "check cfg has_downloader is_qb now seeding_torrents hist task_ids torrent_tasks =
     (if \<not> has_downloader then Inr torrent_tasks
      else
        (let seeding_torrents_dict = torrents_dict seeding_torrents in
         case update_seeding_tasks_based_on_tags cfg is_qb now hist seeding_torrents_dict
                torrent_tasks of
           Inl e \<Rightarrow> Inl e
         | Inr diff \<Rightarrow>
             (let tasks1 = fst diff;
                  torrent_check_hashes = keys_after_tags task_ids seeding_torrents_dict tasks1
              in if tasks1 = Map.empty \<or> torrent_check_hashes = [] then Inr tasks1
                 else
                   (case evaluate_tasks cfg now seeding_torrents_dict torrent_check_hashes
                           tasks1 of
                      Inl e \<Rightarrow> Inl e
                    | Inr tasks4 \<Rightarrow> auto_cleanup cfg now torrent_check_hashes tasks4))))"

text \<open>
  What a cycle leaves in the \<^verbatim>\<open>torrents\<close> bucket when it ends in an exception: the
  reconciliation saves its store when one of its summaries is not empty, and nothing
  else is saved before the end of the cycle.
\<close>

definition saved_on_abort ::
  "HNRConfig \<Rightarrow> bool \<Rightarrow> real \<Rightarrow> Torrent list \<Rightarrow> histories \<Rightarrow> task_store \<Rightarrow> task_store" where
  "saved_on_abort cfg is_qb now seeding_torrents hist torrent_tasks =
     (case update_seeding_tasks_based_on_tags cfg is_qb now hist
             (torrents_dict seeding_torrents) torrent_tasks of
        Inl e \<Rightarrow> torrent_tasks
      | Inr diff \<Rightarrow>
          (case diff of (tasks1, added, reset, removed) \<Rightarrow>
             if added = [] \<and> removed = [] \<and> reset = [] then torrent_tasks else tasks1))"

section \<open>Ingestion\<close>

text \<open>
  The descriptor of a download event (\<^verbatim>\<open>TorrentInfo\<close>, or the dictionary filtered to
  its fields), the event data that \<^verbatim>\<open>handle_download_added_event\<close> reads, and the two
  persisted buckets (\<^verbatim>\<open>downloads\<close>, \<^verbatim>\<open>torrents\<close>) together with the client.
\<close>

record TorrentInfo =
  ti_site :: int
  ti_site_name :: string
  ti_title :: string
  ti_description :: string
  ti_size :: real
  ti_hit_and_run :: bool

record DownloadEvent =
  ev_hash :: string
  ev_torrent_info :: "TorrentInfo option"
  ev_downloader :: string

record Engine =
  st_downloads :: histories
  st_torrents :: task_store
  st_client :: client

text \<open>
  Modelled from the spec: \<^verbatim>\<open>from_torrent_info\<close> and the constructors of the entity
  classes are declared in the entities module. The record of an ingestion event takes
  the descriptor's fields and the time of the event; \<^verbatim>\<open>__create_torrent_instance\<close>
  then sets the hash and the task type.
\<close>

definition create_torrent_history :: "real \<Rightarrow> string \<Rightarrow> TorrentInfo \<Rightarrow> TaskType \<Rightarrow> TorrentHistory" where
  "create_torrent_history now torrent_hash torrent_data ty =
     \<lparr>site = ti_site torrent_data, site_name = ti_site_name torrent_data,
      title = ti_title torrent_data, description = ti_description torrent_data,
      torrent_size = ti_size torrent_data, time = now, hash = torrent_hash, task_type = ty,
      hit_and_run = ti_hit_and_run torrent_data\<rparr>"

definition create_torrent_task :: "real \<Rightarrow> string \<Rightarrow> TorrentInfo \<Rightarrow> TaskType \<Rightarrow> TorrentTask" where
  "create_torrent_task now torrent_hash torrent_data ty =
     task_of_history (create_torrent_history now torrent_hash torrent_data ty)"

text \<open>\<^verbatim>\<open>__save_and_cleanup_downloads\<close>: store the record, then drop those older than 30 days.\<close>

definition save_and_cleanup_downloads ::
  "real \<Rightarrow> histories \<Rightarrow> string \<Rightarrow> TorrentInfo \<Rightarrow> TaskType \<Rightarrow> histories" where
  "save_and_cleanup_downloads now downloads torrent_hash torrent_data ty =
     (let torrent_history = create_torrent_history now torrent_hash torrent_data ty;
          downloads1 = downloads(torrent_hash \<mapsto> torrent_history);
          current_time = now;
          cutoff_time = current_time - 30 * 24 * 60 * 60
      in (\<lambda>key. case downloads1 key of
                   None \<Rightarrow> None
                 | Some v \<Rightarrow> if time v > cutoff_time then Some v else None))"

text \<open>\<^verbatim>\<open>__update_torrent_tasks\<close> for one task: written under the task's hash.\<close>

definition update_torrent_tasks :: "task_store \<Rightarrow> TorrentTask \<Rightarrow> task_store" where
  "update_torrent_tasks existing_torrent_tasks torrent_task =
     existing_torrent_tasks(hash torrent_task \<mapsto> torrent_task)"

text \<open>
  \<^verbatim>\<open>__process_torrent_task\<close>. The log line and the notification come after the two
  writes.
\<close>

definition process_torrent_task ::
  "HNRConfig \<Rightarrow> real \<Rightarrow> Engine \<Rightarrow> string \<Rightarrow> TorrentInfo \<Rightarrow> TaskType \<Rightarrow> Engine" where
  "process_torrent_task cfg now st torrent_hash torrent_data ty =
     (let torrent_task = create_torrent_task now torrent_hash torrent_data ty in
      if site torrent_task \<notin> set (sites cfg) then st
      else
        (let t1 = init_hr_status cfg torrent_task in
         if \<not> hit_and_run t1 then st
         else st\<lparr>st_torrents := update_torrent_tasks (st_torrents st) t1,
                 st_client := set_hit_and_run_tag cfg (st_client st) t1\<rparr>))"

text \<open>\<^verbatim>\<open>__process_event\<close>.\<close>

definition process_event ::
  "HNRConfig \<Rightarrow> real \<Rightarrow> Engine \<Rightarrow> string \<Rightarrow> TorrentInfo option \<Rightarrow> TaskType \<Rightarrow> Engine" where
  "process_event cfg now st torrent_hash torrent_data ty =
     (case torrent_data of
        None \<Rightarrow> st
      | Some d \<Rightarrow>
          if torrent_hash = [] then st
          else
            (case st_client st torrent_hash of
               None \<Rightarrow> st
             | Some torrent \<Rightarrow>
                 (let st1 = st\<lparr>st_downloads :=
                               save_and_cleanup_downloads now (st_downloads st) torrent_hash d ty\<rparr>
                  in process_torrent_task cfg now st1 torrent_hash d ty)))"

text \<open>
  \<^verbatim>\<open>handle_download_added_event\<close>. \<open>service_name\<close> is the name of the monitored
  downloader service; an event without data is \<open>None\<close>.
\<close>

definition handle_download_added_event ::
  "HNRConfig \<Rightarrow> bool \<Rightarrow> string \<Rightarrow> real \<Rightarrow> Engine \<Rightarrow> DownloadEvent option \<Rightarrow> Engine" where
  "handle_download_added_event cfg has_downloader service_name now st event =
     (if \<not> has_downloader then st
      else
        (case event of
           None \<Rightarrow> st
         | Some event_data \<Rightarrow>
             if ev_downloader event_data = [] then st
             else if service_name \<noteq> ev_downloader event_data then st
             else if ev_hash event_data = [] then st
             else
               (case ev_torrent_info event_data of
                  None \<Rightarrow> st
                | Some torrent_info \<Rightarrow>
                    (let ty = (if ti_description torrent_info \<noteq> [] then NORMAL
                               else RSS_SUBSCRIBE)
                     in process_event cfg now st (ev_hash event_data) (Some torrent_info) ty))))"

section \<open>Configuration\<close>

text \<open>\<^verbatim>\<open>__validate_config\<close>: the verdict and the reason it is reported with.\<close>

definition validate_config :: "HNRConfig \<Rightarrow> bool \<times> string" where
  "validate_config config =
     (if \<not> enabled config \<and> \<not> onlyonce config then (True, ''plugin not enabled'')
      else if downloader config = None \<or> downloader config = Some [] then
        (False, ''downloader must not be empty'')
      else if cfg_hr_duration config \<le> 0 then (False, ''H&R duration must be above 0'')
      else if cfg_hr_deadline_days config \<le> 0 then (False, ''H&R deadline must be above 0'')
      else if cfg_hr_ratio config \<le> 0 then (False, ''H&R ratio must be above 0'')
      else (True, ''all settings are valid''))"

text \<open>
  Modelled from the spec: \<^verbatim>\<open>HNRConfig.parse_obj\<close> belongs to the configuration module
  and to pydantic. It either raises or yields the configuration that the dictionary
  spells out; \<open>well_formed\<close> says which.
\<close>

definition parse_obj :: "bool \<Rightarrow> HNRConfig \<Rightarrow> py_error + HNRConfig" where
  "parse_obj well_formed config = (if well_formed then Inr config else Inl ValidationError)"

text \<open>
  The plugin's configuration state: the runtime configuration \<^verbatim>\<open>_hnr_config\<close>, the
  configuration last written with \<^verbatim>\<open>update_config\<close>, and the alerts put on the system
  message queue.
\<close>

record Plugin =
  hnr_config :: "HNRConfig option"
  saved_config :: "HNRConfig option"
  alerts :: "string list"

text \<open>
  \<^verbatim>\<open>__validate_and_fix_config\<close>. \<open>indexers\<close> lists the known sites with their
  public flag; a later entry for the same id wins, as in the dictionary the source
  builds. Both failure branches and the exception handler clear \<^verbatim>\<open>_hnr_config\<close>.
\<close>

definition validate_and_fix_config ::
  "bool \<Rightarrow> (int \<times> bool) list \<Rightarrow> Plugin \<Rightarrow> HNRConfig option \<Rightarrow> (bool \<times> string) \<times> Plugin" where
  "validate_and_fix_config well_formed indexers pl config =
     (case config of
        None \<Rightarrow> ((False, []), pl)
      | Some c \<Rightarrow>
          (case parse_obj well_formed c of
             Inl e \<Rightarrow> ((False, ''validation error''), pl\<lparr>hnr_config := None\<rparr>)
           | Inr hc \<Rightarrow>
               (case validate_config hc of
                  (result, reason) \<Rightarrow>
                    if result then
                      (let site_id_to_public_status = map_of (rev indexers);
                           hc1 = (if sites hc \<noteq> [] then
                                    hc\<lparr>sites := filter (\<lambda>site_id.
                                            site_id_to_public_status site_id = Some False)
                                          (sites hc)\<rparr>
                                  else hc)
                       in ((True, []), pl\<lparr>hnr_config := Some hc1\<rparr>))
                    else ((result, reason), pl\<lparr>hnr_config := None\<rparr>))))"

text \<open>\<^verbatim>\<open>__update_config_if_error\<close>.\<close>

definition update_config_if_error :: "Plugin \<Rightarrow> HNRConfig option \<Rightarrow> string \<Rightarrow> Plugin" where
  "update_config_if_error pl config error =
     (case config of
        None \<Rightarrow> pl
      | Some c \<Rightarrow>
          if enabled c \<or> onlyonce c then
            pl\<lparr>saved_config := Some (c\<lparr>enabled := False, onlyonce := False\<rparr>),
               alerts := alerts pl @
                 [if error \<noteq> [] then ''configuration error, plugin disabled: '' @ error
                  else ''configuration error, plugin disabled, please check'']\<rparr>
          else pl\<lparr>saved_config := Some c\<rparr>)"

text \<open>
  \<^verbatim>\<open>init_plugin\<close>, as far as the configuration goes. After a validation that passed,
  the run-once flag is cleared and the configuration is written back. Reading
  \<^verbatim>\<open>self._hnr_config.onlyonce\<close> without a runtime configuration would raise
  \<^verbatim>\<open>AttributeError\<close>.
\<close>

definition init_plugin ::
  "bool \<Rightarrow> (int \<times> bool) list \<Rightarrow> Plugin \<Rightarrow> HNRConfig option \<Rightarrow> py_error + Plugin" where
  "init_plugin well_formed indexers pl config =
     (if config = None then Inr pl
      else
        (case validate_and_fix_config well_formed indexers pl config of
           ((result, reason), pl1) \<Rightarrow>
             if \<not> result \<and> hnr_config pl1 = None then
               Inr (update_config_if_error pl1 config reason)
             else
               (case hnr_config pl1 of
                  None \<Rightarrow> Inl AttributeError
                | Some hc \<Rightarrow>
                    (let hc1 = (if onlyonce hc then hc\<lparr>onlyonce := False\<rparr> else hc)
                     in Inr (pl1\<lparr>hnr_config := Some hc1, saved_config := Some hc1\<rparr>)))))"

section \<open>Example data\<close>

definition ex_site_config :: SiteConfig where
  "ex_site_config =
     \<lparr>sc_hr_duration = Some 100, sc_hr_ratio = 5, sc_hr_deadline_days = 14,
      sc_additional_seed_time = None, sc_hr_active = True\<rparr>"

definition ex_config :: HNRConfig where
  "ex_config =
     \<lparr>enabled = True, onlyonce = False, downloader = Some ''qb'',
      cfg_hr_duration = 100, cfg_hr_deadline_days = 14, cfg_hr_ratio = 5,
      sites = [1], hit_and_run_tag = ''H&R'', auto_cleanup_days = 7, notify = ALWAYS,
      get_site_config = (\<lambda>_. ex_site_config)\<rparr>"

definition ex_task :: TorrentTask where
  "ex_task =
     \<lparr>site = 1, site_name = ''A'', title = ''t'', description = ''d'', torrent_size = 1,
      time = 0, hash = ''h1'', task_type = NORMAL, hit_and_run = True,
      hr_status = IN_PROGRESS, hr_ratio = 5, hr_duration = Some 100, hr_deadline_days = 14,
      ratio = Some (1 / 10), downloaded = 0, uploaded = 0, seeding_time = Some 363600,
      deleted = False, deleted_time = None, hr_met_time = None\<rparr>"

definition ex_client :: client where
  "ex_client = [''h1'' \<mapsto> [''H&R'']]"

definition ex_torrent :: Torrent where
  "ex_torrent =
     \<lparr>t_hash = ''h1'', t_tags = [], t_title = ''t'', t_total_size = 1, t_add_on = Some 0,
      t_downloaded = Some 1, t_uploaded = Some 1, t_ratio = Some 1, t_seeding_time = Some 60,
      t_site_id = 1, t_site_name = ''A''\<rparr>"

definition ex_untracked :: Torrent where
  "ex_untracked =
     \<lparr>t_hash = ''h0'', t_tags = [''H&R''], t_title = ''u'', t_total_size = 1, t_add_on = None,
      t_downloaded = None, t_uploaded = None, t_ratio = None, t_seeding_time = None,
      t_site_id = 0, t_site_name = []\<rparr>"

definition ex_config_no_cleanup :: HNRConfig where
  "ex_config_no_cleanup = ex_config\<lparr>auto_cleanup_days := 0\<rparr>"

definition ex_compliant_old :: TorrentTask where
  "ex_compliant_old = ex_task\<lparr>hr_status := COMPLIANT, hr_met_time := Some 308800\<rparr>"

definition ex_compliant_recent :: TorrentTask where
  "ex_compliant_recent = ex_task\<lparr>hr_status := COMPLIANT, hr_met_time := Some 481600\<rparr>"



definition ex_info :: TorrentInfo where
  "ex_info =
     \<lparr>ti_site = 1, ti_site_name = ''A'', ti_title = ''t'', ti_description = ''d'', ti_size = 1,
      ti_hit_and_run = False\<rparr>"

definition ex_event :: DownloadEvent where
  "ex_event = \<lparr>ev_hash = ''h2'', ev_torrent_info = Some ex_info, ev_downloader = ''qb''\<rparr>"

definition ex_engine :: Engine where
  "ex_engine =
     \<lparr>st_downloads = Map.empty, st_torrents = Map.empty, st_client = [''h2'' \<mapsto> []]\<rparr>"

definition ex_bad_config :: HNRConfig where
  "ex_bad_config = ex_config\<lparr>cfg_hr_duration := 0\<rparr>"

definition ex_plugin :: Plugin where
  "ex_plugin = \<lparr>hnr_config = Some ex_config, saved_config = Some ex_config, alerts = []\<rparr>"

definition ex_config_no_site :: HNRConfig where
  "ex_config_no_site = ex_config\<lparr>sites := []\<rparr>"

definition ex_plugin_fresh :: Plugin where
  "ex_plugin_fresh = \<lparr>hnr_config = None, saved_config = None, alerts = []\<rparr>"

section \<open>Properties of the status evaluation\<close>




text \<open>
  C2. The evaluation step is gated on IN_PROGRESS: a task in any other status
  (PENDING, UNRESTRICTED, COMPLIANT, OVERDUE, NEEDS_SEEDING) comes out of the step
  exactly as it went in, whatever its seeding time and ratio are, and the client is
  not touched.
\<close>

theorem update_hr_status_sticky:
  assumes "hr_status t \<noteq> IN_PROGRESS"
  shows "update_hr_status cfg now cl t = (t, cl)"
  using assms by (simp add: update_hr_status_def)

theorem update_hr_status_sticky_witness:
  "hr_status (ex_task\<lparr>hr_status := OVERDUE\<rparr>) \<noteq> IN_PROGRESS \<and>
   hr_status (ex_task\<lparr>hr_status := NEEDS_SEEDING\<rparr>) \<noteq> IN_PROGRESS \<and>
   hr_status (ex_task\<lparr>hr_status := COMPLIANT\<rparr>) \<noteq> IN_PROGRESS \<and>
   update_hr_status ex_config 363600 ex_client (ex_task\<lparr>hr_status := OVERDUE\<rparr>) =
     (ex_task\<lparr>hr_status := OVERDUE\<rparr>, ex_client) \<and>
   update_hr_status ex_config 363600 ex_client (ex_task\<lparr>hr_status := NEEDS_SEEDING\<rparr>) =
     (ex_task\<lparr>hr_status := NEEDS_SEEDING\<rparr>, ex_client) \<and>
   update_hr_status ex_config 363600 ex_client (ex_task\<lparr>hr_status := COMPLIANT\<rparr>) =
     (ex_task\<lparr>hr_status := COMPLIANT\<rparr>, ex_client)"
  using update_hr_status_sticky [of "ex_task\<lparr>hr_status := OVERDUE\<rparr>" ex_config 363600 ex_client]
        update_hr_status_sticky [of "ex_task\<lparr>hr_status := NEEDS_SEEDING\<rparr>" ex_config 363600 ex_client]
        update_hr_status_sticky [of "ex_task\<lparr>hr_status := COMPLIANT\<rparr>" ex_config 363600 ex_client]
  by simp

section \<open>Properties of the tag reconciliation\<close>

lemma init_hr_status_deleted: "deleted (init_hr_status cfg t) = deleted t"
  by (simp add: init_hr_status_def Let_def)

lemma convert_not_deleted:
  "convert_torrent_info_to_task cfg now torrent hist = Some t \<Longrightarrow> \<not> deleted t"
  by (auto simp: convert_torrent_info_to_task_def Let_def init_hr_status_deleted task_of_history_def
           split: if_splits option.splits)

lemma tags_step_frame:
  "tags_step cfg now hist item acc = Inr acc' \<Longrightarrow> k \<noteq> fst item \<Longrightarrow> fst acc' k = fst acc k"
  by (auto simp: tags_step_def split: prod.splits if_splits option.splits)

lemma tags_step_settles:
  "tags_step cfg now hist item acc = Inr acc' \<Longrightarrow> settled_at cfg item (fst acc')"
  by (auto simp: tags_step_def settled_at_def split: prod.splits if_splits option.splits
           dest: convert_not_deleted)

lemma tags_step_settled_id:
  "settled_at cfg item (fst acc) \<Longrightarrow> tags_step cfg now hist item acc = Inr acc"
  by (auto simp: tags_step_def settled_at_def split: prod.splits if_splits option.splits)



lemma tags_loop_frame:
  "tags_loop cfg now hist snap acc = Inr acc' \<Longrightarrow> k \<notin> fst ` set snap \<Longrightarrow> fst acc' k = fst acc k"
proof (induction snap arbitrary: acc)
  case Nil
  then show ?case by simp
next
  case (Cons item snap)
  from Cons.prems(1) obtain acc1 where
    st: "tags_step cfg now hist item acc = Inr acc1" and
    lp: "tags_loop cfg now hist snap acc1 = Inr acc'"
    by (auto split: sum.splits)
  from Cons.prems(2) have k1: "k \<noteq> fst item" and k2: "k \<notin> fst ` set snap" by auto
  have "fst acc' k = fst acc1 k" by (rule Cons.IH [OF lp k2])
  also have "\<dots> = fst acc k" by (rule tags_step_frame [OF st k1])
  finally show ?case .
qed


lemma settled_at_cong:
  "s' (fst item) = s (fst item) \<Longrightarrow> settled_at cfg item s' = settled_at cfg item s"
  by (simp add: settled_at_def)

lemma tags_loop_settles:
  "tags_loop cfg now hist snap acc = Inr acc' \<Longrightarrow> distinct (map fst snap) \<Longrightarrow>
     \<forall>item \<in> set snap. settled_at cfg item (fst acc')"
proof (induction snap arbitrary: acc)
  case Nil
  then show ?case by simp
next
  case (Cons item snap)
  from Cons.prems(1) obtain acc1 where
    st: "tags_step cfg now hist item acc = Inr acc1" and
    lp: "tags_loop cfg now hist snap acc1 = Inr acc'"
    by (auto split: sum.splits)
  from Cons.prems(2) have k: "fst item \<notin> fst ` set snap" and d: "distinct (map fst snap)"
    by auto
  have "fst acc' (fst item) = fst acc1 (fst item)" by (rule tags_loop_frame [OF lp k])
  then have "settled_at cfg item (fst acc') = settled_at cfg item (fst acc1)"
    by (rule settled_at_cong)
  with tags_step_settles [OF st] have hd: "settled_at cfg item (fst acc')" by simp
  from Cons.IH [OF lp d] hd show ?case by simp
qed

lemma tags_loop_settled_id:
  "\<forall>item \<in> set snap. settled_at cfg item (fst acc) \<Longrightarrow> tags_loop cfg now hist snap acc = Inr acc"
proof (induction snap)
  case Nil
  then show ?case by simp
next
  case (Cons item snap)
  from Cons.prems have hd: "settled_at cfg item (fst acc)"
    and rest: "\<forall>item \<in> set snap. settled_at cfg item (fst acc)" by simp_all
  show ?case by (simp add: tags_step_settled_id [OF hd] Cons.IH [OF rest])
qed


text \<open>
  C10. When the downloader service is not a qbittorrent instance, the reconciliation
  returns at once: the store is the one it was given and the three summaries (added,
  reset, removed) are empty, for every store and every snapshot.
\<close>

theorem tags_skipped_unless_qbittorrent:
  assumes "\<not> is_qb"
  shows "update_seeding_tasks_based_on_tags cfg is_qb now hist snap s = Inr (s, [], [], [])"
  using assms by (simp add: update_seeding_tasks_based_on_tags_def)

theorem tags_skipped_unless_qbittorrent_witness:
  "update_seeding_tasks_based_on_tags ex_config False 0 Map.empty
     [(''h0'', ex_untracked), (''h1'', ex_torrent)] [''h1'' \<mapsto> ex_task] =
   Inr ([''h1'' \<mapsto> ex_task], [], [], [])"
  using tags_skipped_unless_qbittorrent [of False ex_config 0 Map.empty
          "[(''h0'', ex_untracked), (''h1'', ex_torrent)]" "[''h1'' \<mapsto> ex_task]"]
  by simp




text \<open>
  C4. A second reconciliation against the same snapshot, started from the store that
  the first one returned, adds no task, removes no task, resets no deleted flag and
  returns that same store. The snapshot is a dictionary, so its keys are distinct.
\<close>

theorem tags_idempotent:
  assumes "distinct (map fst snap)"
    and "update_seeding_tasks_based_on_tags cfg is_qb now hist snap s =
           Inr (s1, added, reset, removed)"
  shows "update_seeding_tasks_based_on_tags cfg is_qb now' hist snap s1 = Inr (s1, [], [], [])"
proof (cases is_qb)
  case False
  then show ?thesis by (simp add: update_seeding_tasks_based_on_tags_def)
next
  case True
  with assms(2) have
    "tags_loop cfg now hist snap (s, [], [], []) = Inr (s1, added, reset, removed)"
    by (simp add: update_seeding_tasks_based_on_tags_def)
  from tags_loop_settles [OF this assms(1)]
  have "\<forall>item \<in> set snap. settled_at cfg item (fst (s1, [], [], []))" by simp
  from tags_loop_settled_id [OF this] True show ?thesis
    by (simp add: update_seeding_tasks_based_on_tags_def)
qed

theorem tags_idempotent_witness:
  "distinct (map fst [(''h1'', ex_torrent)]) \<and>
   update_seeding_tasks_based_on_tags ex_config True 0 Map.empty
     [(''h1'', ex_torrent)] [''h1'' \<mapsto> ex_task] =
   Inr ([''h1'' \<mapsto> ex_task](''h1'' := None), [], [], [ex_task]) \<and>
   update_seeding_tasks_based_on_tags ex_config True 1 Map.empty
     [(''h1'', ex_torrent)] ([''h1'' \<mapsto> ex_task](''h1'' := None)) =
   Inr ([''h1'' \<mapsto> ex_task](''h1'' := None), [], [], [])"
proof -
  have d: "distinct (map fst [(''h1'', ex_torrent)])" by simp
  have run: "update_seeding_tasks_based_on_tags ex_config True 0 Map.empty
     [(''h1'', ex_torrent)] [''h1'' \<mapsto> ex_task] =
   Inr ([''h1'' \<mapsto> ex_task](''h1'' := None), [], [], [ex_task])"
    by (simp add: update_seeding_tasks_based_on_tags_def tags_step_def ex_config_def
          ex_torrent_def ex_task_def)
  from tags_idempotent [OF d run, of 1] d run show ?thesis by simp
qed

section \<open>Properties of the check cycle\<close>

lemma update_set_cases:
  "(k, v) \<in> set (AList.update k' v' al) \<Longrightarrow> (k, v) = (k', v') \<or> (k, v) \<in> set al"
  by (induction al) (auto split: if_splits)

lemma torrents_dict_acc_keys:
  "(k, t) \<in> set (foldl (\<lambda>d torrent. AList.update (t_hash torrent) torrent d) d0 ts) \<Longrightarrow>
   \<forall>(k, t) \<in> set d0. t_hash t = k \<Longrightarrow> t_hash t = k"
proof (induction ts arbitrary: d0)
  case Nil
  then show ?case by auto
next
  case (Cons x ts)
  have "\<forall>(k, t) \<in> set (AList.update (t_hash x) x d0). t_hash t = k"
    using Cons.prems(2) by (auto dest!: update_set_cases)
  from Cons.IH [OF _ this] Cons.prems(1) show ?case by simp
qed

lemma torrents_dict_keys: "(k, t) \<in> set (torrents_dict ts) \<Longrightarrow> t_hash t = k"
  unfolding torrents_dict_def by (erule torrents_dict_acc_keys) simp

lemma torrents_dict_acc_dom:
  "fst ` set (foldl (\<lambda>d torrent. AList.update (t_hash torrent) torrent d) d0 ts) =
   fst ` set d0 \<union> t_hash ` set ts"
  by (induction ts arbitrary: d0) (auto simp: dom_update)

lemma torrents_dict_dom: "fst ` set (torrents_dict ts) = t_hash ` set ts"
  by (simp add: torrents_dict_def torrents_dict_acc_dom)

lemma torrents_dict_acc_distinct:
  "distinct (map fst d0) \<Longrightarrow>
   distinct (map fst (foldl (\<lambda>d torrent. AList.update (t_hash torrent) torrent d) d0 ts))"
  by (induction ts arbitrary: d0) (auto simp: distinct_update)

lemma torrents_dict_distinct: "distinct (map fst (torrents_dict ts))"
  by (simp add: torrents_dict_def torrents_dict_acc_distinct)

lemma check_torrents_hashes:
  "h \<in> set (map t_hash (check_torrents (torrents_dict ts) hashes)) \<longleftrightarrow>
     h \<in> set hashes \<and> h \<in> t_hash ` set ts"
proof
  assume "h \<in> set (map t_hash (check_torrents (torrents_dict ts) hashes))"
  then obtain k t where k: "k \<in> set hashes" and m: "map_of (torrents_dict ts) k = Some t"
    and ht: "t_hash t = h"
    by (auto simp: check_torrents_def List.map_filter_def)
  from m have mem: "(k, t) \<in> set (torrents_dict ts)" by (rule map_of_SomeD)
  then have "t_hash t = k" by (rule torrents_dict_keys)
  with ht have kh: "k = h" by simp
  from mem have "fst (k, t) \<in> fst ` set (torrents_dict ts)" by (rule imageI)
  with kh k show "h \<in> set hashes \<and> h \<in> t_hash ` set ts" by (simp add: torrents_dict_dom)
next
  assume a: "h \<in> set hashes \<and> h \<in> t_hash ` set ts"
  then have "h \<in> fst ` set (torrents_dict ts)" by (simp add: torrents_dict_dom)
  then have "map_of (torrents_dict ts) h \<noteq> None" by (simp add: map_of_eq_None_iff)
  then obtain t where m: "map_of (torrents_dict ts) h = Some t" by auto
  then have "(h, t) \<in> set (torrents_dict ts)" by (rule map_of_SomeD)
  then have "t_hash t = h" by (rule torrents_dict_keys)
  with a m show "h \<in> set (map t_hash (check_torrents (torrents_dict ts) hashes))"
    by (force simp: check_torrents_def List.map_filter_def)
qed


lemma undeleted_of_Inr:
  "\<forall>h \<in> set hs. m h \<noteq> None \<Longrightarrow>
     undeleted_of m hs = Inr (filter (\<lambda>h. \<exists>t. m h = Some t \<and> \<not> deleted t) hs)"
  by (induction hs) auto


lemma undeleted_of_distinct:
  "undeleted_of m hs = Inr us \<Longrightarrow> distinct hs \<Longrightarrow>
     distinct us \<and> set us = {h \<in> set hs. \<exists>t. m h = Some t \<and> \<not> deleted t}"
proof (induction hs arbitrary: us)
  case Nil
  then show ?case by simp
next
  case (Cons x hs)
  from Cons.prems(1) obtain t us' where mx: "m x = Some t"
    and r: "undeleted_of m hs = Inr us'"
    and us: "us = (if \<not> deleted t then x # us' else us')"
    by (auto split: option.splits sum.splits)
  from Cons.prems(2) have d: "distinct hs" and xn: "x \<notin> set hs" by simp_all
  from Cons.IH [OF r d] have ih: "distinct us'"
    "set us' = {h \<in> set hs. \<exists>t. m h = Some t \<and> \<not> deleted t}" by simp_all
  from ih xn mx us show ?case by auto
qed


lemma mark_deleted_loop_apply:
  "mark_deleted_loop cfg now hs m = Inr m' \<Longrightarrow> distinct hs \<Longrightarrow>
     m' k = (if k \<in> set hs
             then map_option (\<lambda>t. t\<lparr>deleted := True, deleted_time := Some now\<rparr>) (m k)
             else m k)"
proof (induction hs arbitrary: m)
  case Nil
  then show ?case by simp
next
  case (Cons x hs)
  from Cons.prems(1) obtain t where mx: "m x = Some t"
    and lp: "mark_deleted_loop cfg now hs (m(x \<mapsto> t\<lparr>deleted := True, deleted_time := Some now\<rparr>))
               = Inr m'"
    by (auto simp: Let_def split: option.splits sum.splits)
  from Cons.prems(2) have d: "distinct hs" and xn: "x \<notin> set hs" by simp_all
  from Cons.IH [OF lp d] mx xn show ?case by auto
qed


lemma missing_marked_when_returns:
  assumes "distinct hashes" and "set hashes = dom tasks"
    and "update_undeleted_torrents_missing_in_downloader cfg now tasks hashes
           (check_torrents (torrents_dict seeding_torrents) hashes) = Inr s'"
  shows "s' h =
           (case tasks h of
              None \<Rightarrow> None
            | Some t \<Rightarrow>
                if h \<notin> t_hash ` set seeding_torrents \<and> \<not> deleted t
                then Some (t\<lparr>deleted := True, deleted_time := Some now\<rparr>)
                else Some t)"
proof -
  let ?all = "map t_hash (check_torrents (torrents_dict seeding_torrents) hashes)"
  let ?missing = "filter (\<lambda>hash_value. hash_value \<notin> set ?all) hashes"
  from assms(3) obtain us where u: "undeleted_of tasks ?missing = Inr us"
    and r: "(if us = [] then Inr tasks else mark_deleted_loop cfg now us tasks) = Inr s'"
    by (auto simp: update_undeleted_torrents_missing_in_downloader_def Let_def split: sum.splits)
  from assms(1) have "distinct ?missing" by simp
  from undeleted_of_distinct [OF u this] have du: "distinct us"
    and su: "set us = {h \<in> set ?missing. \<exists>t. tasks h = Some t \<and> \<not> deleted t}" by simp_all
  have mem: "h \<in> set us \<longleftrightarrow>
      (\<exists>t. tasks h = Some t \<and> \<not> deleted t \<and> h \<notin> t_hash ` set seeding_torrents)"
    using su assms(2) check_torrents_hashes [of h seeding_torrents hashes] by auto
  have ap: "s' h = (if h \<in> set us
             then map_option (\<lambda>t. t\<lparr>deleted := True, deleted_time := Some now\<rparr>) (tasks h)
             else tasks h)"
  proof (cases "us = []")
    case True
    with r show ?thesis by simp
  next
    case False
    with r have "mark_deleted_loop cfg now us tasks = Inr s'" by simp
    from mark_deleted_loop_apply [OF this du] show ?thesis .
  qed
  show ?thesis
  proof (cases "tasks h")
    case None
    with ap show ?thesis by simp
  next
    case (Some t)
    with ap mem show ?thesis by auto
  qed
qed


lemma mark_deleted_loop_returns:
  assumes "\<forall>h t. m h = Some t \<longrightarrow> hr_duration t \<noteq> None \<and> seeding_time t \<noteq> None"
    and "\<forall>h \<in> set hs. m h \<noteq> None"
  shows "\<exists>m'. mark_deleted_loop cfg now hs m = Inr m'"
  using assms
proof (induction hs arbitrary: m)
  case Nil
  then show ?case by simp
next
  case (Cons x hs)
  from Cons.prems(2) obtain t where mx: "m x = Some t" by auto
  with Cons.prems(1) obtain d st where dt: "hr_duration t = Some d" "seeding_time t = Some st"
    by fastforce
  let ?t = "t\<lparr>deleted := True, deleted_time := Some now\<rparr>"
  let ?m = "m(x \<mapsto> ?t)"
  have 1: "\<forall>h t. ?m h = Some t \<longrightarrow> hr_duration t \<noteq> None \<and> seeding_time t \<noteq> None"
    using Cons.prems(1) dt by auto
  have 2: "\<forall>h \<in> set hs. ?m h \<noteq> None" using Cons.prems(2) by auto
  have lg: "log_torrent_hr_status cfg ?t = Inr ()"
    using dt by (simp add: log_torrent_hr_status_def)
  have sd: "send_hr_message cfg ?t w = Inr ()" for w
    using dt by (simp add: send_hr_message_def build_hr_message_text_def)
  from Cons.IH [OF 1 2] obtain m' where "mark_deleted_loop cfg now hs ?m = Inr m'" by blast
  with mx lg sd have "mark_deleted_loop cfg now (x # hs) m = Inr m'" by (simp add: Let_def)
  then show ?case by blast
qed


lemma missing_marked_returns:
  assumes "\<forall>h t. tasks h = Some t \<longrightarrow> hr_duration t \<noteq> None \<and> seeding_time t \<noteq> None"
    and "set hashes = dom tasks"
  shows "\<exists>s'. update_undeleted_torrents_missing_in_downloader cfg now tasks hashes torrents
           = Inr s'"
proof -
  let ?missing = "filter (\<lambda>hash_value. hash_value \<notin> set (map t_hash torrents)) hashes"
  from assms(2) have all: "\<forall>h \<in> set ?missing. tasks h \<noteq> None" by auto
  let ?us = "filter (\<lambda>h. \<exists>t. tasks h = Some t \<and> \<not> deleted t) ?missing"
  from undeleted_of_Inr [OF all] have u: "undeleted_of tasks ?missing = Inr ?us" .
  from all have "\<forall>h \<in> set ?us. tasks h \<noteq> None" by auto
  from mark_deleted_loop_returns [OF assms(1) this, of cfg now] u show ?thesis
    by (auto simp: update_undeleted_torrents_missing_in_downloader_def Let_def)
qed



lemma cleanup_due_iff:
  "cleanup_due cfg now t \<longleftrightarrow>
     (hr_status t = COMPLIANT \<and>
        (\<exists>m. hr_met_time t = Some m \<and> m \<noteq> 0 \<and> now - m > auto_cleanup_days cfg * 86400)) \<or>
     (hr_status t = COMPLIANT \<and> (hr_met_time t = None \<or> hr_met_time t = Some 0)) \<or>
     (deleted t \<and>
        (\<exists>d. deleted_time t = Some d \<and> d \<noteq> 0 \<and> now - d > auto_cleanup_days cfg * 86400)) \<or>
     (deleted t \<and> (deleted_time t = None \<or> deleted_time t = Some 0))"
  by (cases "hr_met_time t"; cases "deleted_time t")
     (auto simp: cleanup_due_def truthy_def or_zero_def Let_def)




lemma cleanup_due_literal:
  assumes "auto_cleanup_days cfg * 86400 < now"
  shows "cleanup_due cfg now t \<longleftrightarrow>
     (hr_status t = COMPLIANT \<and>
        (\<exists>m. hr_met_time t = Some m \<and> now - m > auto_cleanup_days cfg * 86400)) \<or>
     (hr_status t = COMPLIANT \<and> hr_met_time t = None) \<or>
     (deleted t \<and>
        (\<exists>d. deleted_time t = Some d \<and> now - d > auto_cleanup_days cfg * 86400)) \<or>
     (deleted t \<and> deleted_time t = None)"
  using assms unfolding cleanup_due_iff by auto


lemma cleanup_loop_mem:
  "cleanup_loop cfg now m ids acc = Inr rm \<Longrightarrow>
     (k \<in> set rm) =
       (k \<in> set acc \<or> (k \<in> set ids \<and> (\<exists>t. m k = Some t \<and> cleanup_due cfg now t)))"
proof (induction ids arbitrary: acc)
  case Nil
  then show ?case by simp
next
  case (Cons x ids)
  show ?case
  proof (cases "m x")
    case None
    with Cons.prems have lp: "cleanup_loop cfg now m ids acc = Inr rm" by simp
    have "k = x \<Longrightarrow> \<not> (\<exists>t. m k = Some t \<and> cleanup_due cfg now t)" using None by simp
    with Cons.IH [OF lp] show ?thesis by fastforce
  next
    case (Some t)
    show ?thesis
    proof (cases "cleanup_due cfg now t")
      case True
      with Some Cons.prems have lp: "cleanup_loop cfg now m ids (acc @ [x]) = Inr rm"
        by (simp split: sum.splits)
      have "k = x \<Longrightarrow> (\<exists>t. m k = Some t \<and> cleanup_due cfg now t)" using Some True by simp
      with Cons.IH [OF lp] show ?thesis by fastforce
    next
      case False
      with Some Cons.prems have lp: "cleanup_loop cfg now m ids acc = Inr rm" by simp
      have "k = x \<Longrightarrow> \<not> (\<exists>t. m k = Some t \<and> cleanup_due cfg now t)"
        using Some False by simp
      with Cons.IH [OF lp] show ?thesis by fastforce
    qed
  qed
qed

lemma remove_tasks_apply: "remove_tasks rm m k = (if k \<in> set rm then None else m k)"
  by (induction rm arbitrary: m) auto


lemma auto_cleanup_when_returns:
  assumes "auto_cleanup cfg now task_ids tasks = Inr s'" and "dom tasks \<subseteq> set task_ids"
  shows "s' h =
           (case tasks h of
              None \<Rightarrow> None
            | Some t \<Rightarrow>
                if 0 < auto_cleanup_days cfg \<and> cleanup_due cfg now t then None else Some t)"
proof (cases "auto_cleanup_days cfg \<le> 0")
  case True
  with assms(1) show ?thesis by (auto simp: auto_cleanup_def split: option.splits)
next
  case False
  with assms(1) obtain rm where lp: "cleanup_loop cfg now tasks task_ids [] = Inr rm"
    and s': "s' = remove_tasks rm tasks"
    by (auto simp: auto_cleanup_def split: sum.splits)
  from cleanup_loop_mem [OF lp, of h]
  have "h \<in> set rm \<longleftrightarrow> h \<in> set task_ids \<and> (\<exists>t. tasks h = Some t \<and> cleanup_due cfg now t)"
    by simp
  with assms(2) have mem: "h \<in> set rm \<longleftrightarrow> (\<exists>t. tasks h = Some t \<and> cleanup_due cfg now t)"
    by blast
  from False have pos: "0 < auto_cleanup_days cfg" by simp
  show ?thesis
  proof (cases "tasks h")
    case None
    then show ?thesis by (simp add: s' remove_tasks_apply)
  next
    case (Some t)
    with mem pos show ?thesis by (simp add: s' remove_tasks_apply)
  qed
qed


lemma cleanup_loop_returns:
  assumes "\<forall>h t. m h = Some t \<longrightarrow> hr_duration t \<noteq> None"
  shows "\<exists>rm. cleanup_loop cfg now m ids acc = Inr rm"
proof (induction ids arbitrary: acc)
  case Nil
  then show ?case by simp
next
  case (Cons x ids)
  show ?case
  proof (cases "m x")
    case None
    with Cons.IH [of acc] show ?thesis by simp
  next
    case (Some t)
    with assms obtain d where "hr_duration t = Some d" by fastforce
    then have "log_torrent_hr_status cfg t = Inr ()" by (simp add: log_torrent_hr_status_def)
    with Some Cons.IH [of acc] Cons.IH [of "acc @ [x]"] show ?thesis by simp
  qed
qed


lemma auto_cleanup_returns:
  assumes "\<forall>h t. tasks h = Some t \<longrightarrow> hr_duration t \<noteq> None"
  shows "\<exists>s'. auto_cleanup cfg now task_ids tasks = Inr s'"
  using cleanup_loop_returns [OF assms, of cfg now task_ids "[]"]
  by (auto simp: auto_cleanup_def)


lemma auto_cleanup_boundary_example:
  "\<exists>s'. auto_cleanup ex_config 1000000 [''h1'', ''h2'']
          [''h1'' \<mapsto> ex_compliant_recent, ''h2'' \<mapsto> ex_compliant_old] = Inr s' \<and>
        s' ''h1'' = Some ex_compliant_recent \<and> s' ''h2'' = None"
  by (simp add: auto_cleanup_def cleanup_due_def log_torrent_hr_status_def truthy_def
        or_zero_def ex_compliant_recent_def ex_compliant_old_def ex_task_def ex_config_def)


section \<open>Paths out of the store\<close>

lemma tags_step_removed_only:
  "tags_step cfg now hist item acc = Inr acc1 \<Longrightarrow> fst acc h = Some t \<Longrightarrow> fst acc1 h = None \<Longrightarrow>
     fst item = h \<and> hit_and_run_tag cfg \<notin> set (t_tags (snd item)) \<and> hr_status t \<noteq> COMPLIANT"
  by (auto simp: tags_step_def split: prod.splits if_splits option.splits)

lemma tags_loop_removed_only:
  "tags_loop cfg now hist snap acc = Inr acc' \<Longrightarrow> distinct (map fst snap) \<Longrightarrow>
   fst acc h = Some t \<Longrightarrow> fst acc' h = None \<Longrightarrow>
     \<exists>torrent. (h, torrent) \<in> set snap \<and> hit_and_run_tag cfg \<notin> set (t_tags torrent) \<and>
       hr_status t \<noteq> COMPLIANT"
proof (induction snap arbitrary: acc)
  case Nil
  then show ?case by simp
next
  case (Cons item snap)
  from Cons.prems(1) obtain acc1 where
    st: "tags_step cfg now hist item acc = Inr acc1" and
    lp: "tags_loop cfg now hist snap acc1 = Inr acc'"
    by (auto split: sum.splits)
  from Cons.prems(2) have k: "fst item \<notin> fst ` set snap" and d: "distinct (map fst snap)"
    by auto
  show ?case
  proof (cases "fst item = h")
    case True
    with k have "h \<notin> fst ` set snap" by simp
    from tags_loop_frame [OF lp this] Cons.prems(4) have "fst acc1 h = None" by simp
    from tags_step_removed_only [OF st Cons.prems(3) this]
    have "hit_and_run_tag cfg \<notin> set (t_tags (snd item)) \<and> hr_status t \<noteq> COMPLIANT" by simp
    moreover from True have "(h, snd item) \<in> set (item # snap)" by (cases item) auto
    ultimately show ?thesis by blast
  next
    case False
    then have "h \<noteq> fst item" by blast
    from tags_step_frame [OF st this] Cons.prems(3) have "fst acc1 h = Some t" by simp
    from Cons.IH [OF lp d this Cons.prems(4)] show ?thesis by auto
  qed
qed

lemma mark_deleted_loop_dom:
  "mark_deleted_loop cfg now hs m = Inr m' \<Longrightarrow> (m' h = None) = (m h = None)"
proof (induction hs arbitrary: m)
  case Nil
  then show ?case by simp
next
  case (Cons x hs)
  from Cons.prems obtain t where mx: "m x = Some t"
    and lp: "mark_deleted_loop cfg now hs (m(x \<mapsto> t\<lparr>deleted := True, deleted_time := Some now\<rparr>))
               = Inr m'"
    by (auto simp: Let_def split: option.splits sum.splits)
  from Cons.IH [OF lp] mx show ?case by (auto split: if_splits)
qed

lemma update_undeleted_dom:
  "update_undeleted_torrents_missing_in_downloader cfg now m hs ts = Inr m' \<Longrightarrow>
     (m' h = None) = (m h = None)"
  by (auto simp: update_undeleted_torrents_missing_in_downloader_def Let_def mark_deleted_loop_dom
           split: sum.splits if_splits)

lemma update_torrent_tasks_state_dom:
  "update_torrent_tasks_state ts m h = None \<longleftrightarrow> m h = None"
  by (induction ts arbitrary: m) (auto split: option.splits)

lemma evaluate_tasks_dom:
  "evaluate_tasks cfg now snap hs m = Inr m' \<Longrightarrow> (m' h = None) = (m h = None)"
  by (auto simp: evaluate_tasks_def Let_def update_torrent_tasks_state_dom
           dest: update_undeleted_dom split: sum.splits)

lemma cleanup_loop_due:
  "cleanup_loop cfg now m ids acc = Inr rm \<Longrightarrow> k \<in> set rm \<Longrightarrow>
     k \<in> set acc \<or> (\<exists>t. m k = Some t \<and> cleanup_due cfg now t)"
proof (induction ids arbitrary: acc)
  case Nil
  then show ?case by simp
next
  case (Cons x ids)
  show ?case
  proof (cases "m x")
    case None
    with Cons.prems(1) have "cleanup_loop cfg now m ids acc = Inr rm" by simp
    from Cons.IH [OF this Cons.prems(2)] show ?thesis .
  next
    case (Some t)
    show ?thesis
    proof (cases "cleanup_due cfg now t")
      case True
      with Some Cons.prems(1) have "cleanup_loop cfg now m ids (acc @ [x]) = Inr rm"
        by (auto split: sum.splits)
      from Cons.IH [OF this Cons.prems(2)] Some True show ?thesis by auto
    next
      case False
      with Some Cons.prems(1) have "cleanup_loop cfg now m ids acc = Inr rm" by simp
      from Cons.IH [OF this Cons.prems(2)] show ?thesis .
    qed
  qed
qed

lemma auto_cleanup_removed:
  assumes "auto_cleanup cfg now ids m = Inr m'" and "m' h = None" and "m h = Some t"
  shows "0 < auto_cleanup_days cfg \<and> cleanup_due cfg now t"
proof -
  from assms have pos: "0 < auto_cleanup_days cfg"
    by (auto simp: auto_cleanup_def split: if_splits)
  with assms(1) obtain rm where lp: "cleanup_loop cfg now m ids [] = Inr rm"
    and m': "m' = remove_tasks rm m"
    by (auto simp: auto_cleanup_def split: sum.splits)
  from m' assms(2,3) have "h \<in> set rm" by (simp add: remove_tasks_apply split: if_splits)
  from cleanup_loop_due [OF lp this] assms(3) pos show ?thesis by simp
qed


lemma process_event_keeps:
  "st_torrents st h \<noteq> None \<Longrightarrow> st_torrents (process_event cfg now st th d ty) h \<noteq> None"
  by (auto simp: process_event_def process_torrent_task_def update_torrent_tasks_def Let_def
           split: option.splits)

lemma handle_cases:
  "handle_download_added_event cfg has_dl sn now st ev = st \<or>
   (\<exists>th d ty. handle_download_added_event cfg has_dl sn now st ev =
      process_event cfg now st th (Some d) ty)"
  by (auto simp: handle_download_added_event_def Let_def split: option.splits)

lemma handle_keeps:
  assumes "st_torrents st h \<noteq> None"
  shows "st_torrents (handle_download_added_event cfg has_dl sn now st ev) h \<noteq> None"
proof -
  from handle_cases [of cfg has_dl sn now st ev] show ?thesis
  proof
    assume "handle_download_added_event cfg has_dl sn now st ev = st"
    with assms show ?thesis by simp
  next
    assume "\<exists>th d ty. handle_download_added_event cfg has_dl sn now st ev =
      process_event cfg now st th (Some d) ty"
    then obtain th d ty where "handle_download_added_event cfg has_dl sn now st ev =
      process_event cfg now st th (Some d) ty" by blast
    with process_event_keeps [OF assms, of cfg now th "Some d" ty] show ?thesis by simp
  qed
qed



text \<open>
  C7, as stated, fails: with the Cleaner switched off (window 0) a check cycle still
  takes a task out of the store, because the tag reconciliation drops the entry of a
  torrent that the client reports without the management tag.
\<close>

theorem removal_counterexample:
  "auto_cleanup_days ex_config_no_cleanup \<le> 0 \<and>
   [''h1'' \<mapsto> ex_task] ''h1'' = Some ex_task \<and>
   check ex_config_no_cleanup True True 0 [ex_torrent] Map.empty [''h1''] [''h1'' \<mapsto> ex_task] =
     Inr Map.empty"
  by (simp add: check_def update_seeding_tasks_based_on_tags_def torrents_dict_def
        tags_step_def ex_config_no_cleanup_def ex_config_def ex_torrent_def ex_task_def)

text \<open>
  C7, amended. A task leaves the store on two paths only. When a check cycle that
  runs to its end has dropped the entry of a hash, then either the downloader is
  qbittorrent, the client reported that hash without the management tag and the entry
  was not COMPLIANT (tag reconciliation), or the retention window is above zero and
  the task, as it stood after the status evaluation, met the Cleaner's rule. When a
  cycle ends in an exception, the store it leaves saved has dropped an entry only on
  the first path. The marking of missing torrents, the refresh of the statistics and
  the status evaluation drop no entry, and the ingestion of a download event drops
  none.
\<close>

theorem removal_paths:
  "(check cfg has_downloader is_qb now seeding_torrents hist task_ids s = Inr s' \<and>
      s h = Some t \<and> s' h = None \<longrightarrow>
      (is_qb \<and> hr_status t \<noteq> COMPLIANT \<and>
         (\<exists>torrent. (h, torrent) \<in> set (torrents_dict seeding_torrents) \<and>
            hit_and_run_tag cfg \<notin> set (t_tags torrent))) \<or>
      (0 < auto_cleanup_days cfg \<and>
         (\<exists>s1 added reset removed s4 t'.
            update_seeding_tasks_based_on_tags cfg is_qb now hist
              (torrents_dict seeding_torrents) s = Inr (s1, added, reset, removed) \<and>
            evaluate_tasks cfg now (torrents_dict seeding_torrents)
              (keys_after_tags task_ids (torrents_dict seeding_torrents) s1) s1 = Inr s4 \<and>
            s4 h = Some t' \<and> cleanup_due cfg now t'))) \<and>
   (check cfg has_downloader is_qb now seeding_torrents hist task_ids s = Inl e \<and>
      s h = Some t \<and> saved_on_abort cfg is_qb now seeding_torrents hist s h = None \<longrightarrow>
      is_qb \<and> hr_status t \<noteq> COMPLIANT \<and>
        (\<exists>torrent. (h, torrent) \<in> set (torrents_dict seeding_torrents) \<and>
           hit_and_run_tag cfg \<notin> set (t_tags torrent))) \<and>
   (st_torrents st h \<noteq> None \<longrightarrow>
      st_torrents (handle_download_added_event cfg has_downloader service_name now st ev) h
        \<noteq> None)"
  (is "?A \<and> ?B \<and> ?C")
proof -
  have A: ?A
  proof (rule impI)
  assume a: "check cfg has_downloader is_qb now seeding_torrents hist task_ids s = Inr s' \<and>
     s h = Some t \<and> s' h = None"
  then have run: "check cfg has_downloader is_qb now seeding_torrents hist task_ids s = Inr s'"
    and sh: "s h = Some t" and s'h: "s' h = None" by simp_all
  let ?snap = "torrents_dict seeding_torrents"
  from run sh s'h have hd: has_downloader by (auto simp: check_def split: if_splits)
  from run hd obtain s1 added reset removed where
    tg: "update_seeding_tasks_based_on_tags cfg is_qb now hist ?snap s =
           Inr (s1, added, reset, removed)"
    by (cases "update_seeding_tasks_based_on_tags cfg is_qb now hist ?snap s")
       (auto simp: check_def Let_def)
  let ?keys = "keys_after_tags task_ids ?snap s1"
  from run hd tg have s': "(if s1 = Map.empty \<or> ?keys = [] then Inr s1
        else (case evaluate_tasks cfg now ?snap ?keys s1 of
                Inl e \<Rightarrow> Inl e
              | Inr tasks4 \<Rightarrow> auto_cleanup cfg now ?keys tasks4)) = Inr s'"
    by (simp add: check_def Let_def)
  show "(is_qb \<and> hr_status t \<noteq> COMPLIANT \<and>
         (\<exists>torrent. (h, torrent) \<in> set ?snap \<and> hit_and_run_tag cfg \<notin> set (t_tags torrent))) \<or>
      (0 < auto_cleanup_days cfg \<and>
         (\<exists>s1 added reset removed s4 t'.
            update_seeding_tasks_based_on_tags cfg is_qb now hist ?snap s =
              Inr (s1, added, reset, removed) \<and>
            evaluate_tasks cfg now ?snap (keys_after_tags task_ids ?snap s1) s1 = Inr s4 \<and>
            s4 h = Some t' \<and> cleanup_due cfg now t'))"
  proof (cases "s1 h")
    case None
    from tg sh None have qb: is_qb
      by (auto simp: update_seeding_tasks_based_on_tags_def split: if_splits)
    with tg have lp: "tags_loop cfg now hist ?snap (s, [], [], []) = Inr (s1, added, reset, removed)"
      by (simp add: update_seeding_tasks_based_on_tags_def)
    have "\<exists>torrent. (h, torrent) \<in> set ?snap \<and> hit_and_run_tag cfg \<notin> set (t_tags torrent) \<and>
       hr_status t \<noteq> COMPLIANT"
      by (rule tags_loop_removed_only [OF lp torrents_dict_distinct]) (simp_all add: sh None)
    with qb show ?thesis by blast
  next
    case (Some t1)
    with s' s'h have ne: "\<not> (s1 = Map.empty \<or> ?keys = [])" by (auto split: if_splits)
    with s' obtain s4 where ev: "evaluate_tasks cfg now ?snap ?keys s1 = Inr s4"
      and cl: "auto_cleanup cfg now ?keys s4 = Inr s'"
      by (auto split: sum.splits)
    from evaluate_tasks_dom [OF ev, of h] Some obtain t' where s4h: "s4 h = Some t'" by auto
    from auto_cleanup_removed [OF cl s'h s4h] tg ev s4h show ?thesis by blast
  qed
  qed
  have B: ?B
  proof (rule impI)
  assume a: "check cfg has_downloader is_qb now seeding_torrents hist task_ids s = Inl e \<and>
      s h = Some t \<and> saved_on_abort cfg is_qb now seeding_torrents hist s h = None"
  then have sh: "s h = Some t"
    and sv: "saved_on_abort cfg is_qb now seeding_torrents hist s h = None" by simp_all
  let ?snap = "torrents_dict seeding_torrents"
  from sh sv obtain s1 added reset removed where
    tg: "update_seeding_tasks_based_on_tags cfg is_qb now hist ?snap s =
           Inr (s1, added, reset, removed)" and s1h: "s1 h = None"
    by (auto simp: saved_on_abort_def split: sum.splits prod.splits if_splits)
  from tg sh s1h have qb: is_qb
    by (auto simp: update_seeding_tasks_based_on_tags_def split: if_splits)
  with tg have lp: "tags_loop cfg now hist ?snap (s, [], [], []) = Inr (s1, added, reset, removed)"
    by (simp add: update_seeding_tasks_based_on_tags_def)
  have "\<exists>torrent. (h, torrent) \<in> set ?snap \<and> hit_and_run_tag cfg \<notin> set (t_tags torrent) \<and>
     hr_status t \<noteq> COMPLIANT"
    by (rule tags_loop_removed_only [OF lp torrents_dict_distinct]) (simp_all add: sh s1h)
  with qb show "is_qb \<and> hr_status t \<noteq> COMPLIANT \<and>
        (\<exists>torrent. (h, torrent) \<in> set ?snap \<and> hit_and_run_tag cfg \<notin> set (t_tags torrent))"
    by blast
  qed
  have C: ?C by (rule impI) (rule handle_keeps)
  from A B C show ?thesis by (intro conjI)
qed

theorem removal_paths_witness:
  "check ex_config_no_cleanup True True 0 [ex_torrent] Map.empty [''h1''] [''h1'' \<mapsto> ex_task] =
     Inr Map.empty \<and>
   hr_status ex_task \<noteq> COMPLIANT \<and>
   (\<exists>torrent. (''h1'', torrent) \<in> set (torrents_dict [ex_torrent]) \<and>
      hit_and_run_tag ex_config_no_cleanup \<notin> set (t_tags torrent))"
proof -
  have run: "check ex_config_no_cleanup True True 0 [ex_torrent] Map.empty [''h1'']
      [''h1'' \<mapsto> ex_task] = Inr Map.empty"
    by (simp add: check_def update_seeding_tasks_based_on_tags_def torrents_dict_def
        tags_step_def ex_config_no_cleanup_def ex_config_def ex_torrent_def ex_task_def)
  have off: "\<not> 0 < auto_cleanup_days ex_config_no_cleanup"
    by (simp add: ex_config_no_cleanup_def ex_config_def)
  from removal_paths [of ex_config_no_cleanup True True 0 "[ex_torrent]" Map.empty "[''h1'']"
      "[''h1'' \<mapsto> ex_task]" Map.empty "''h1''" ex_task] run off
  show ?thesis by simp
qed


section \<open>Properties of the ingestion\<close>

lemma init_hr_status_hash: "hash (init_hr_status cfg t) = hash t"
  by (simp add: init_hr_status_def Let_def)

lemma create_torrent_task_fields:
  "hash (create_torrent_task now th d ty) = th"
  "site (create_torrent_task now th d ty) = ti_site d"
  by (simp_all add: create_torrent_task_def create_torrent_history_def task_of_history_def)

lemma save_and_cleanup_downloads_new:
  "save_and_cleanup_downloads now dl th d ty th = Some (create_torrent_history now th d ty)"
  by (simp add: save_and_cleanup_downloads_def Let_def create_torrent_history_def)

lemma process_torrent_task_downloads:
  "st_downloads (process_torrent_task cfg now st th d ty) = st_downloads st"
  by (simp add: process_torrent_task_def Let_def)

text \<open>
  C8. A download event that passes validation (a downloader instance is there, the
  event names the monitored downloader, it carries a hash and a descriptor, and the
  client holds the torrent) always leaves a history record for its hash in the
  \<^verbatim>\<open>downloads\<close> bucket. When an obligation applies (the descriptor's site is in the
  enabled-site list and \<open>hit_and_run\<close> is true after the initialisation), the
  initialised task is stored under the hash and the management tag is added to the
  torrent's tags unless it is there already; otherwise the task store and the client
  are left as they were.
\<close>

theorem ingestion_effects:
  assumes "has_downloader" and "ev = Some e" and "ev_downloader e \<noteq> []"
    and "service_name = ev_downloader e" and "ev_hash e \<noteq> []"
    and "ev_torrent_info e = Some ti" and "st_client st (ev_hash e) = Some tags"
  shows "let ty = (if ti_description ti \<noteq> [] then NORMAL else RSS_SUBSCRIBE);
             st' = handle_download_added_event cfg has_downloader service_name now st ev;
             task = init_hr_status cfg (create_torrent_task now (ev_hash e) ti ty);
             applies = (ti_site ti \<in> set (sites cfg) \<and> hit_and_run task)
         in st_downloads st' (ev_hash e) = Some (create_torrent_history now (ev_hash e) ti ty) \<and>
            (applies \<longrightarrow>
               st_torrents st' = (st_torrents st)(ev_hash e \<mapsto> task) \<and>
               st_client st' =
                 (if hit_and_run_tag cfg \<in> set tags then st_client st
                  else (st_client st)(ev_hash e \<mapsto> tags @ [hit_and_run_tag cfg]))) \<and>
            (\<not> applies \<longrightarrow> st_torrents st' = st_torrents st \<and> st_client st' = st_client st)"
proof -
  define ty where "ty = (if ti_description ti \<noteq> [] then NORMAL else RSS_SUBSCRIBE)"
  define st1 where
    "st1 = st\<lparr>st_downloads := save_and_cleanup_downloads now (st_downloads st) (ev_hash e) ti ty\<rparr>"
  define task where "task = init_hr_status cfg (create_torrent_task now (ev_hash e) ti ty)"
  define applies where "applies \<longleftrightarrow> ti_site ti \<in> set (sites cfg) \<and> hit_and_run task"
  define st' where "st' = handle_download_added_event cfg has_downloader service_name now st ev"
  have h: "st' = process_torrent_task cfg now st1 (ev_hash e) ti ty"
    using assms
    by (simp add: st'_def st1_def ty_def handle_download_added_event_def process_event_def Let_def)
  have dl: "st_downloads st' (ev_hash e) = Some (create_torrent_history now (ev_hash e) ti ty)"
    by (simp add: h process_torrent_task_downloads st1_def save_and_cleanup_downloads_new)
  have no: "st_torrents st' = st_torrents st \<and> st_client st' = st_client st" if "\<not> applies"
    using that
    by (auto simp: h applies_def task_def st1_def process_torrent_task_def Let_def
          create_torrent_task_fields)
  have yes: "st_torrents st' = (st_torrents st)(ev_hash e \<mapsto> task) \<and>
             st_client st' =
               (if hit_and_run_tag cfg \<in> set tags then st_client st
                else (st_client st)(ev_hash e \<mapsto> tags @ [hit_and_run_tag cfg]))" if "applies"
    using that assms(5,7)
    by (auto simp: h applies_def task_def st1_def process_torrent_task_def Let_def
          create_torrent_task_fields update_torrent_tasks_def set_hit_and_run_tag_def
          update_hit_and_run_tag_def init_hr_status_hash)
  from dl no yes have
    "st_downloads st' (ev_hash e) = Some (create_torrent_history now (ev_hash e) ti ty) \<and>
     (applies \<longrightarrow>
        st_torrents st' = (st_torrents st)(ev_hash e \<mapsto> task) \<and>
        st_client st' =
          (if hit_and_run_tag cfg \<in> set tags then st_client st
           else (st_client st)(ev_hash e \<mapsto> tags @ [hit_and_run_tag cfg]))) \<and>
     (\<not> applies \<longrightarrow> st_torrents st' = st_torrents st \<and> st_client st' = st_client st)"
    by blast
  then show ?thesis
    unfolding Let_def applies_def task_def st'_def ty_def .
qed

theorem ingestion_effects_witness:
  "st_downloads (handle_download_added_event ex_config True ''qb'' 10 ex_engine (Some ex_event))
     ''h2'' = Some (create_torrent_history 10 ''h2'' ex_info NORMAL) \<and>
   st_torrents (handle_download_added_event ex_config True ''qb'' 10 ex_engine (Some ex_event)) =
     (st_torrents ex_engine)(''h2'' \<mapsto>
        init_hr_status ex_config (create_torrent_task 10 ''h2'' ex_info NORMAL)) \<and>
   st_client (handle_download_added_event ex_config True ''qb'' 10 ex_engine (Some ex_event)) =
     (st_client ex_engine)(''h2'' \<mapsto> [''H&R'']) \<and>
   st_torrents (handle_download_added_event ex_config_no_site True ''qb'' 10 ex_engine
     (Some ex_event)) = st_torrents ex_engine"
proof -
  have ap: "ti_site ex_info \<in> set (sites ex_config) \<and>
        hit_and_run (init_hr_status ex_config (create_torrent_task 10 ''h2'' ex_info NORMAL))"
    by (simp add: ex_info_def ex_config_def ex_site_config_def init_hr_status_def Let_def)
  have nap: "\<not> (ti_site ex_info \<in> set (sites ex_config_no_site) \<and>
        hit_and_run (init_hr_status ex_config_no_site
          (create_torrent_task 10 ''h2'' ex_info NORMAL)))"
    by (simp add: ex_info_def ex_config_no_site_def ex_config_def)
  note th = ingestion_effects [where has_downloader = True and ev = "Some ex_event"
      and e = ex_event and service_name = "''qb''" and ti = ex_info and st = ex_engine
      and tags = "[]" and now = 10]
  have a: "ev_downloader ex_event \<noteq> []" "''qb'' = ev_downloader ex_event"
    "ev_hash ex_event \<noteq> []" "ev_torrent_info ex_event = Some ex_info"
    "st_client ex_engine (ev_hash ex_event) = Some []"
    by (simp_all add: ex_event_def ex_engine_def)
  have d: "ti_description ex_info \<noteq> []" "ev_hash ex_event = ''h2''"
    "hit_and_run_tag ex_config = ''H&R''"
    by (simp_all add: ex_info_def ex_event_def ex_config_def)
  from th [of ex_config, OF TrueI refl a] ap d
  have 1: "st_downloads (handle_download_added_event ex_config True ''qb'' 10 ex_engine
        (Some ex_event)) ''h2'' = Some (create_torrent_history 10 ''h2'' ex_info NORMAL) \<and>
      st_torrents (handle_download_added_event ex_config True ''qb'' 10 ex_engine
        (Some ex_event)) = (st_torrents ex_engine)(''h2'' \<mapsto>
          init_hr_status ex_config (create_torrent_task 10 ''h2'' ex_info NORMAL)) \<and>
      st_client (handle_download_added_event ex_config True ''qb'' 10 ex_engine
        (Some ex_event)) = (st_client ex_engine)(''h2'' \<mapsto> [''H&R''])"
    by (simp add: Let_def)
  from th [of ex_config_no_site, OF TrueI refl a] nap d
  have 2: "st_torrents (handle_download_added_event ex_config_no_site True ''qb'' 10 ex_engine
     (Some ex_event)) = st_torrents ex_engine"
    by (simp add: Let_def)
  from 1 2 show ?thesis by simp
qed

section \<open>Properties of the configuration\<close>

lemma validate_config_fails_iff:
  "\<not> fst (validate_config c) \<longleftrightarrow>
     (enabled c \<or> onlyonce c) \<and>
     ((downloader c = None \<or> downloader c = Some []) \<or> cfg_hr_duration c \<le> 0 \<or>
      cfg_hr_deadline_days c \<le> 0 \<or> cfg_hr_ratio c \<le> 0)"
  by (auto simp: validate_config_def)

lemma validate_config_reason: "\<not> fst (validate_config c) \<Longrightarrow> snd (validate_config c) \<noteq> []"
  by (auto simp: validate_config_def split: if_splits)

lemma init_plugin_returns: "\<exists>pl'. init_plugin well_formed indexers pl config = Inr pl'"
  by (cases config)
     (auto simp: init_plugin_def validate_and_fix_config_def parse_obj_def Let_def
           split: prod.splits sum.splits if_splits option.splits)

lemma init_plugin_invalid:
  assumes "\<not> fst (validate_config c)"
  shows "init_plugin True indexers pl (Some c) =
           Inr (pl\<lparr>hnr_config := None,
                   saved_config := Some (c\<lparr>enabled := False, onlyonce := False\<rparr>),
                   alerts := alerts pl @
                     [''configuration error, plugin disabled: '' @ snd (validate_config c)]\<rparr>)"
proof -
  from assms have en: "enabled c \<or> onlyonce c" by (simp add: validate_config_fails_iff)
  obtain result reason where v: "validate_config c = (result, reason)"
    by (cases "validate_config c")
  with assms have r: "\<not> result" by simp
  from validate_config_reason [OF assms] v have ne: "reason \<noteq> []" by simp
  from v r en ne show ?thesis
    by (simp add: init_plugin_def validate_and_fix_config_def parse_obj_def
          update_config_if_error_def)
qed

text \<open>
  C9, as stated, fails in its last part: a validation failure does not leave the
  last-known-good runtime configuration in place. \<^verbatim>\<open>__validate_and_fix_config\<close> sets
  \<^verbatim>\<open>_hnr_config\<close> to \<open>None\<close> on every failure, so a plugin that ran with a valid
  configuration has none after an invalid one was submitted.
\<close>

theorem config_validation_counterexample:
  "hnr_config ex_plugin = Some ex_config \<and>
   fst (validate_config ex_config) \<and>
   \<not> fst (validate_config ex_bad_config) \<and>
   init_plugin True [] ex_plugin (Some ex_bad_config) =
     Inr \<lparr>hnr_config = None,
          saved_config = Some (ex_bad_config\<lparr>enabled := False, onlyonce := False\<rparr>),
          alerts = [''configuration error, plugin disabled: H&R duration must be above 0'']\<rparr>"
  by (simp add: init_plugin_def validate_and_fix_config_def parse_obj_def
        update_config_if_error_def validate_config_def ex_plugin_def ex_bad_config_def
        ex_config_def)


text \<open>
  C9, amended. Validation is enforced only when the configuration is enabled or asked
  to run once: otherwise it passes. When it is enforced it fails exactly when the
  downloader is unset (absent or empty), or the duration, the deadline days or the
  ratio is 0 or less. \<^verbatim>\<open>init_plugin\<close> never ends in an exception, whatever it is
  given. After a validation failure the saved configuration is the submitted one with
  the enabled and run-once flags cleared, one alert carrying the reason is issued, and
  the runtime configuration is cleared: no earlier configuration stays in place.
\<close>

theorem config_validation:
  "(\<not> enabled c \<and> \<not> onlyonce c \<longrightarrow> fst (validate_config c)) \<and>
   (enabled c \<or> onlyonce c \<longrightarrow>
      (\<not> fst (validate_config c) \<longleftrightarrow>
         (downloader c = None \<or> downloader c = Some []) \<or> cfg_hr_duration c \<le> 0 \<or>
         cfg_hr_deadline_days c \<le> 0 \<or> cfg_hr_ratio c \<le> 0)) \<and>
   (\<exists>pl'. init_plugin well_formed indexers pl config = Inr pl') \<and>
   (\<not> fst (validate_config c) \<longrightarrow>
      init_plugin True indexers pl (Some c) =
        Inr (pl\<lparr>hnr_config := None,
                saved_config := Some (c\<lparr>enabled := False, onlyonce := False\<rparr>),
                alerts := alerts pl @
                  [''configuration error, plugin disabled: '' @ snd (validate_config c)]\<rparr>))"
  using validate_config_fails_iff [of c] init_plugin_returns [of well_formed indexers pl config]
    init_plugin_invalid [of c indexers pl]
  by blast


theorem config_validation_witness:
  "enabled ex_bad_config \<and> cfg_hr_duration ex_bad_config \<le> 0 \<and>
   \<not> fst (validate_config ex_bad_config) \<and>
   init_plugin True [] ex_plugin_fresh (Some ex_bad_config) =
     Inr (ex_plugin_fresh\<lparr>hnr_config := None,
            saved_config := Some (ex_bad_config\<lparr>enabled := False, onlyonce := False\<rparr>),
            alerts := alerts ex_plugin_fresh @
              [''configuration error, plugin disabled: '' @ snd (validate_config ex_bad_config)]\<rparr>)"
proof -
  have e: "enabled ex_bad_config" and d: "cfg_hr_duration ex_bad_config \<le> 0"
    by (simp_all add: ex_bad_config_def ex_config_def)
  from config_validation [of ex_bad_config True "[]" ex_plugin_fresh "Some ex_bad_config"] e d
  show ?thesis by simp
qed

end
